theory Spec2Isabelle
  imports Complex_Main "HOL-Library.Word"
begin

unbundle bit_operations_syntax

section \<open>The deallocation lifetime profiler of tcmalloc\<close>

text \<open>
  A shallow embedding of \<^verbatim>\<open>tcmalloc/deallocation_profiler.cc\<close>: the sample record,
  the matching-status taxonomy, the in-flight map and the aggregation table of a
  \<^verbatim>\<open>DeallocationProfiler\<close>, \<^verbatim>\<open>ReportMalloc\<close>, \<^verbatim>\<open>ReportFree\<close>, \<^verbatim>\<open>AddTrace\<close>,
  \<^verbatim>\<open>Iterate\<close> and the lifetime bucketizer.  The spin locks, the arena and the intrusive
  list of profilers are not modelled: every function below is the sequential code that
  runs under the registry lock.
\<close>

subsection \<open>Double-precision arithmetic\<close>

text \<open>
  A C++ \<^verbatim>\<open>double\<close> is an IEEE-754 binary64 value: a finite number \<open>m * 2^e\<close> with
  \<open>\<bar>m\<bar> < 2^53\<close> and \<open>-1074 \<le> e \<le> 971\<close>, an infinity, or a NaN.  Finite values are
  modelled by the real number they denote (the two zeros are identified: the program
  never looks at the sign of a zero).  Every arithmetic operation computes the exact
  real result and rounds it to the nearest double, ties to even (the default rounding
  mode); a result that rounds beyond \<open>DBL_MAX\<close> is an infinity.
\<close>

datatype double = Finite real | PosInf | NegInf | NaN

definition binade :: "real \<Rightarrow> int" where
  \<comment> \<open>the exponent \<open>g\<close> with \<open>2^g \<le> \<bar>x\<bar> < 2^(g+1)\<close>, for \<open>x \<noteq> 0\<close>\<close>
  "binade x = \<lfloor>log 2 \<bar>x\<bar>\<rfloor>"

definition ulp_exp :: "real \<Rightarrow> int" where
  \<comment> \<open>the exponent of the unit in the last place of the doubles around \<open>x\<close>:
      53 significant bits, and the subnormal grid \<open>2^-1074\<close> at the bottom\<close>
  "ulp_exp x = max (binade x - 52) (- 1074)"

definition round_half_even :: "real \<Rightarrow> int" where
  "round_half_even y =
     (let f = \<lfloor>y\<rfloor>; r = y - of_int f
      in if r < 1 / 2 then f else if 1 / 2 < r then f + 1
         else if even f then f else f + 1)"

definition round_to_grid :: "real \<Rightarrow> real" where
  \<comment> \<open>round to nearest, ties to even, with 53 bits of precision (exponent unbounded above)\<close>
  "round_to_grid x =
     (if x = 0 then 0
      else of_int (round_half_even (x / 2 powi ulp_exp x)) * 2 powi ulp_exp x)"

definition DBL_MAX :: real where
  "DBL_MAX = (2 ^ 53 - 1) * 2 ^ 971"

definition to_double :: "real \<Rightarrow> double" where
  \<comment> \<open>the double an exact real result is delivered as\<close>
  "to_double x =
     (let r = round_to_grid x
      in if DBL_MAX < r then PosInf else if r < - DBL_MAX then NegInf else Finite r)"

definition is_double :: "real \<Rightarrow> bool" where
  \<comment> \<open>the reals that are finite doubles: rounding leaves them unchanged\<close>
  "is_double x \<longleftrightarrow> round_to_grid x = x \<and> \<bar>x\<bar> \<le> DBL_MAX"

definition inf_of_sign :: "real \<Rightarrow> double" where
  "inf_of_sign s = (if s = 0 then NaN else if 0 < s then PosInf else NegInf)"

fun dsign :: "double \<Rightarrow> real" where
  "dsign (Finite a) = sgn a"
| "dsign PosInf = 1"
| "dsign NegInf = - 1"
| "dsign NaN = 0"

fun fneg :: "double \<Rightarrow> double" where
  "fneg (Finite a) = Finite (- a)"
| "fneg PosInf = NegInf"
| "fneg NegInf = PosInf"
| "fneg NaN = NaN"

fun fadd :: "double \<Rightarrow> double \<Rightarrow> double" where
  "fadd (Finite a) (Finite b) = to_double (a + b)"
| "fadd NaN _ = NaN"
| "fadd _ NaN = NaN"
| "fadd PosInf NegInf = NaN"
| "fadd NegInf PosInf = NaN"
| "fadd PosInf _ = PosInf"
| "fadd _ PosInf = PosInf"
| "fadd NegInf _ = NegInf"
| "fadd _ NegInf = NegInf"

definition fsub :: "double \<Rightarrow> double \<Rightarrow> double" where
  "fsub x y = fadd x (fneg y)"

fun fmul :: "double \<Rightarrow> double \<Rightarrow> double" where
  "fmul (Finite a) (Finite b) = to_double (a * b)"
| "fmul NaN _ = NaN"
| "fmul _ NaN = NaN"
| "fmul x y = inf_of_sign (dsign x * dsign y)"

fun fdiv :: "double \<Rightarrow> double \<Rightarrow> double" where
  "fdiv (Finite a) (Finite b) = (if b = 0 then inf_of_sign (sgn a) else to_double (a / b))"
| "fdiv NaN _ = NaN"
| "fdiv _ NaN = NaN"
| "fdiv (Finite a) _ = Finite 0"
| "fdiv x (Finite b) = inf_of_sign (dsign x * (if 0 \<le> b then 1 else - 1))"
| "fdiv _ _ = NaN"

fun fsqrt :: "double \<Rightarrow> double" where
  "fsqrt (Finite a) = (if a < 0 then NaN else to_double (sqrt a))"
| "fsqrt PosInf = PosInf"
| "fsqrt NegInf = NaN"
| "fsqrt NaN = NaN"

fun flt :: "double \<Rightarrow> double \<Rightarrow> bool" where
  "flt (Finite a) (Finite b) = (a < b)"
| "flt NaN _ = False"
| "flt _ NaN = False"
| "flt _ NegInf = False"
| "flt NegInf _ = True"
| "flt PosInf _ = False"
| "flt _ PosInf = True"

fun feq :: "double \<Rightarrow> double \<Rightarrow> bool" where
  "feq (Finite a) (Finite b) = (a = b)"
| "feq NaN _ = False"
| "feq _ NaN = False"
| "feq x y = (x = y)"

definition fle :: "double \<Rightarrow> double \<Rightarrow> bool" where
  "fle x y = (flt x y \<or> feq x y)"

definition fmin :: "double \<Rightarrow> double \<Rightarrow> double" where
  \<comment> \<open>\<^verbatim>\<open>std::min(a, b)\<close> is \<^verbatim>\<open>(b < a) ? b : a\<close>\<close>
  "fmin a b = (if flt b a then b else a)"

definition fmax :: "double \<Rightarrow> double \<Rightarrow> double" where
  \<comment> \<open>\<^verbatim>\<open>std::max(a, b)\<close> is \<^verbatim>\<open>(a < b) ? b : a\<close>\<close>
  "fmax a b = (if flt a b then b else a)"

definition double_of_size :: "64 word \<Rightarrow> double" where
  \<comment> \<open>the conversion of a \<^verbatim>\<open>size_t\<close> or \<^verbatim>\<open>uintptr_t\<close> to \<^verbatim>\<open>double\<close>\<close>
  "double_of_size w = to_double (real (unat w))"

text \<open>
  Conversions back to integers.  \<^verbatim>\<open>static_cast<uintptr_t>(d)\<close> discards the fraction; its
  behaviour is undefined when the truncated value is not a \<^verbatim>\<open>uintptr_t\<close>.  \<^verbatim>\<open>std::lround\<close>
  rounds halfway cases away from zero; its result is unspecified outside \<^verbatim>\<open>long\<close>.
  A division of a \<^verbatim>\<open>size_t\<close> by zero is undefined.  Each of them is an error value of the
  model, and so is a loop that would not return.
\<close>

datatype error = CastOutOfRange | LroundOutOfRange | DivideByZero | NonTermination

definition uintptr_of_double :: "double \<Rightarrow> error + 64 word" where
  "uintptr_of_double d =
     (case d of
        Finite a \<Rightarrow>
          if - 1 < a \<and> a < 2 ^ 64 then Inr (word_of_int (if 0 \<le> a then \<lfloor>a\<rfloor> else 0))
          else Inl CastOutOfRange
      | _ \<Rightarrow> Inl CastOutOfRange)"

definition round_half_away :: "real \<Rightarrow> int" where
  "round_half_away a = (if 0 \<le> a then \<lfloor>a + 1 / 2\<rfloor> else - \<lfloor>- a + 1 / 2\<rfloor>)"

definition lround :: "double \<Rightarrow> error + int" where
  "lround d =
     (case d of
        Finite a \<Rightarrow>
          (let n = round_half_away a
           in if - (2 ^ 63) \<le> n \<and> n < 2 ^ 63 then Inr n else Inl LroundOutOfRange)
      | _ \<Rightarrow> Inl LroundOutOfRange)"

subsection \<open>The lifetime bucketizer\<close>

text \<open>
  \<^verbatim>\<open>internal::LifetimeToBucketedLifetimeNanoseconds\<close>.  The final statement
  \<^verbatim>\<open>return static_cast<uintptr_t>(lifetime_ns / 1000000.0) * 1000000L\<close> divides in
  double precision, truncates, and multiplies in \<^verbatim>\<open>uintptr_t\<close> (64 bits, wrapping).
\<close>

definition round_down_to_millisecond :: "double \<Rightarrow> error + 64 word" where
  "round_down_to_millisecond lifetime_ns =
     (case uintptr_of_double (fdiv lifetime_ns (Finite 1000000)) of
        Inl e \<Rightarrow> Inl e
      | Inr ms \<Rightarrow> Inr (ms * 1000000))"

text \<open>
  The loop \<^verbatim>\<open>for (uintptr_t cutoff_ns = 10; cutoff_ns <= 1000000; cutoff_ns *= 10)\<close>,
  from the state in which \<^verbatim>\<open>cutoff_ns\<close> has the given value; when the loop ends without
  returning, the function goes on to its final statement.  \<open>None\<close> is a loop that never
  ends.
\<close>

partial_function (option) bucket_loop :: "double \<Rightarrow> 64 word \<Rightarrow> (error + 64 word) option" where
  "bucket_loop lifetime_ns cutoff_ns =
     (if cutoff_ns \<le> 1000000 then
        (if flt lifetime_ns (double_of_size cutoff_ns) then Some (Inr (cutoff_ns div 10))
         else bucket_loop lifetime_ns (cutoff_ns * 10))
      else Some (round_down_to_millisecond lifetime_ns))"

definition LifetimeToBucketedLifetimeNanoseconds :: "double \<Rightarrow> error + 64 word" where
  "LifetimeToBucketedLifetimeNanoseconds lifetime_ns =
     (if flt lifetime_ns (Finite 1000000) then
        (if fle lifetime_ns (Finite 1) then Inr 1
         else (case bucket_loop lifetime_ns 10 of
                 Some r \<Rightarrow> r
               | None \<Rightarrow> Inl NonTermination))
      else round_down_to_millisecond lifetime_ns)"

subsection \<open>The matching-status taxonomy\<close>

text \<open>
  \<^verbatim>\<open>CpuThreadMatchingStatus\<close> and \<^verbatim>\<open>RpcMatchingStatus\<close> with their constructors; the
  member \<^verbatim>\<open>value\<close> of each struct is the field \<open>status_value\<close>, respectively \<open>rpc_value\<close>.
  The C++ \<^verbatim>\<open>int\<close> values stay below 12.
\<close>

record CpuThreadMatchingStatus =
  cpu_matched :: bool
  thread_matched :: bool
  status_value :: int

definition CpuThreadMatchingStatus :: "bool \<Rightarrow> bool \<Rightarrow> CpuThreadMatchingStatus" where
  "CpuThreadMatchingStatus cpu thread =
     \<lparr>cpu_matched = cpu, thread_matched = thread,
      status_value = push_bit 1 (of_bool cpu) OR of_bool thread\<rparr>"

definition ComputeValue :: "64 word \<Rightarrow> 64 word \<Rightarrow> int" where
  "ComputeValue alloc_id dealloc_id =
     (if alloc_id \<noteq> 0 \<and> dealloc_id \<noteq> 0 then of_bool (alloc_id = dealloc_id) else 2)"

record RpcMatchingStatus =
  rpc_value :: int

definition RpcMatchingStatus :: "64 word \<Rightarrow> 64 word \<Rightarrow> RpcMatchingStatus" where
  "RpcMatchingStatus alloc_id dealloc_id = \<lparr>rpc_value = ComputeValue alloc_id dealloc_id\<rparr>"

definition ComputeIndex :: "CpuThreadMatchingStatus \<Rightarrow> RpcMatchingStatus \<Rightarrow> int" where
  "ComputeIndex status rpc_status = status_value status * 3 + rpc_value rpc_status"

definition kAllCases :: "(CpuThreadMatchingStatus \<times> RpcMatchingStatus) list" where
  "kAllCases =
     [(CpuThreadMatchingStatus False False, RpcMatchingStatus 0 0),
      (CpuThreadMatchingStatus False True, RpcMatchingStatus 0 0),
      (CpuThreadMatchingStatus True False, RpcMatchingStatus 0 0),
      (CpuThreadMatchingStatus True True, RpcMatchingStatus 0 0),
      (CpuThreadMatchingStatus False False, RpcMatchingStatus 1 2),
      (CpuThreadMatchingStatus False True, RpcMatchingStatus 1 2),
      (CpuThreadMatchingStatus True False, RpcMatchingStatus 1 2),
      (CpuThreadMatchingStatus True True, RpcMatchingStatus 1 2),
      (CpuThreadMatchingStatus False False, RpcMatchingStatus 1 1),
      (CpuThreadMatchingStatus False True, RpcMatchingStatus 1 1),
      (CpuThreadMatchingStatus True False, RpcMatchingStatus 1 1),
      (CpuThreadMatchingStatus True True, RpcMatchingStatus 1 1)]"

definition kNumCases :: nat where
  "kNumCases = 12"

subsection \<open>Sample records\<close>

type_synonym pointer = "64 word"

definition kMaxStackDepth :: nat where
  "kMaxStackDepth = 64"

text \<open>
  \<^verbatim>\<open>struct DeallocationSampleRecord\<close>.  The array \<^verbatim>\<open>void* stack[kMaxStackDepth]\<close> is the
  list of its 64 entries.  An \<^verbatim>\<open>absl::Time\<close> is modelled by the real number of
  nanoseconds since the epoch (the infinite past and future are left out), and
  \<^verbatim>\<open>absl::ToDoubleNanoseconds\<close> of a difference of two times by the double nearest to it.
\<close>

record DeallocationSampleRecord =
  weight :: double
  requested_size :: "64 word"
  requested_alignment :: "64 word"
  allocated_size :: "64 word"
  depth :: int
  stack :: "pointer list"
  creation_time :: real
  cpu_id :: int
  thread_id :: int

definition record_eq :: "DeallocationSampleRecord \<Rightarrow> DeallocationSampleRecord \<Rightarrow> bool" where
  \<comment> \<open>\<^verbatim>\<open>DeallocationSampleRecord::operator==\<close>; \<^verbatim>\<open>std::equal\<close> compares the first
      \<^verbatim>\<open>depth\<close> entries (inside the arrays as long as \<open>0 \<le> depth \<le> 64\<close>)\<close>
  "record_eq c other =
     (if depth c \<noteq> depth other \<or> requested_size c \<noteq> requested_size other \<or>
         requested_alignment c \<noteq> requested_alignment other \<or>
         allocated_size c \<noteq> allocated_size other
      then False
      else take (nat (depth c)) (stack c) = take (nat (depth c)) (stack other))"

text \<open>
  Modelled from the spec: \<^verbatim>\<open>tcmalloc_internal::StackTrace\<close> and
  \<^verbatim>\<open>tcmalloc_internal::AllocHandle\<close> are declared in headers outside this file.  The
  fields \<^verbatim>\<open>ReportMalloc\<close> reads are those of \<open>StackTrace\<close>: \<open>st_depth\<close> is the number of
  frames the trace reports and \<open>st_stack\<close> the frames at \<^verbatim>\<open>stack_trace.stack\<close>; a handle
  is a 64-bit identifier.
\<close>

type_synonym AllocHandle = "64 word"

record StackTrace =
  sampled_alloc_handle :: AllocHandle
  st_requested_size :: "64 word"
  st_requested_alignment :: "64 word"
  st_allocated_size :: "64 word"
  st_depth :: nat
  st_stack :: "pointer list"
  st_weight :: "64 word"
  allocation_time :: real

text \<open>
  Modelled from the spec: the primitives the profiler calls when an event arrives, as
  the values they return for that event: \<^verbatim>\<open>absl::Now()\<close>, \<^verbatim>\<open>GetCurrentCpu()\<close>,
  \<^verbatim>\<open>GetTID()\<close>, the frames \<^verbatim>\<open>absl::GetStackTrace\<close> finds on the call stack, and the
  contents of the uninitialised local array it writes them to.
\<close>

record Environment =
  now :: real
  current_cpu :: int
  current_tid :: int
  call_stack :: "pointer list"
  uninitialized :: "pointer list"

subsection \<open>The aggregation table\<close>

record Key =
  alloc :: DeallocationSampleRecord
  dealloc :: DeallocationSampleRecord

definition key_eq :: "Key \<Rightarrow> Key \<Rightarrow> bool" where
  \<comment> \<open>\<^verbatim>\<open>Key::operator==\<close>\<close>
  "key_eq c other = (record_eq (alloc c) (alloc other) \<and> record_eq (dealloc c) (dealloc other))"

record Value =
  counts :: "double list"
  mean_life_times_ns :: "double list"
  variance_life_times_ns :: "double list"
  min_life_times_ns :: "double list"
  max_life_times_ns :: "double list"

definition Value :: Value where
  \<comment> \<open>the constructor \<^verbatim>\<open>Value()\<close>: the member initialisers, then \<^verbatim>\<open>std::fill_n\<close>\<close>
  "Value =
     \<lparr>counts = replicate kNumCases (Finite 0),
      mean_life_times_ns = replicate kNumCases (Finite 0),
      variance_life_times_ns = replicate kNumCases (Finite 0),
      min_life_times_ns = replicate kNumCases (Finite DBL_MAX),
      max_life_times_ns = replicate kNumCases (Finite 0)\<rparr>"

text \<open>
  \<^verbatim>\<open>table_\<close> is an \<^verbatim>\<open>absl::flat_hash_map<Key, Value>\<close>.  It is modelled by the list of its
  entries in the order in which \<^verbatim>\<open>Iterate\<close> visits them (the order is unspecified; a new
  key is put last here).  \<^verbatim>\<open>table_[key]\<close> finds the entry whose key equals \<^verbatim>\<open>key\<close>, or
  inserts \<^verbatim>\<open>key\<close> with a fresh \<^verbatim>\<open>Value()\<close>; the function applied to the entry's value
  is the rest of \<^verbatim>\<open>AddTrace\<close>.
\<close>

type_synonym DeallocationStackTraceTable = "(Key \<times> Value) list"

fun update_entry :: "Key \<Rightarrow> (Value \<Rightarrow> Value) \<Rightarrow> DeallocationStackTraceTable \<Rightarrow> DeallocationStackTraceTable" where
  "update_entry key f [] = [(key, f Value)]"
| "update_entry key f ((k, v) # table) =
     (if key_eq k key then (k, f v) # table else (k, v) # update_entry key f table)"

definition update_slot :: "nat \<Rightarrow> double \<Rightarrow> Value \<Rightarrow> Value" where
  \<comment> \<open>lines 442 to 454 of \<^verbatim>\<open>AddTrace\<close>: the update of slot \<open>index\<close> of \<^verbatim>\<open>v\<close>\<close>
  "update_slot index life_time_ns v =
     (let old_mean_ns = mean_life_times_ns v ! index;
          new_mean_ns =
            fadd old_mean_ns
              (fdiv (fsub life_time_ns old_mean_ns) (fadd (counts v ! index) (Finite 1)));
          new_variance =
            fadd (variance_life_times_ns v ! index)
              (fmul (fsub life_time_ns new_mean_ns) (fsub new_mean_ns old_mean_ns))
      in v\<lparr>mean_life_times_ns := (mean_life_times_ns v)[index := new_mean_ns],
            variance_life_times_ns := (variance_life_times_ns v)[index := new_variance],
            min_life_times_ns :=
              (min_life_times_ns v)[index := fmin (min_life_times_ns v ! index) life_time_ns],
            max_life_times_ns :=
              (max_life_times_ns v)[index := fmax (max_life_times_ns v ! index) life_time_ns],
            counts := (counts v)[index := fadd (counts v ! index) (Finite 1)]\<rparr>)"

definition AddTrace_index :: "DeallocationSampleRecord \<Rightarrow> DeallocationSampleRecord \<Rightarrow> int" where
  \<comment> \<open>lines 426 to 433 of \<^verbatim>\<open>AddTrace\<close>\<close>
  "AddTrace_index alloc_trace dealloc_trace =
     (let status = CpuThreadMatchingStatus (cpu_id alloc_trace = cpu_id dealloc_trace)
                     (thread_id alloc_trace = thread_id dealloc_trace);
          rpc_status = RpcMatchingStatus 0 0
      in ComputeIndex status rpc_status)"

definition life_time_ns :: "DeallocationSampleRecord \<Rightarrow> DeallocationSampleRecord \<Rightarrow> double" where
  "life_time_ns alloc_trace dealloc_trace =
     to_double (creation_time dealloc_trace - creation_time alloc_trace)"

definition AddTrace ::
  "DeallocationSampleRecord \<Rightarrow> DeallocationSampleRecord \<Rightarrow>
   DeallocationStackTraceTable \<Rightarrow> DeallocationStackTraceTable" where
  "AddTrace alloc_trace dealloc_trace table =
     update_entry \<lparr>alloc = alloc_trace, dealloc = dealloc_trace\<rparr>
       (update_slot (nat (AddTrace_index alloc_trace dealloc_trace))
          (life_time_ns alloc_trace dealloc_trace))
       table"

subsection \<open>The profiler\<close>

record DeallocationProfiler =
  allocs :: "AllocHandle \<rightharpoonup> DeallocationSampleRecord"
  reports :: DeallocationStackTraceTable

definition new_profiler :: DeallocationProfiler where
  "new_profiler = \<lparr>allocs = Map.empty, reports = []\<rparr>"

definition copy_frames :: "nat \<Rightarrow> pointer list \<Rightarrow> pointer list \<Rightarrow> pointer list" where
  \<comment> \<open>the destination array after the first \<open>n\<close> entries of the source were copied to it\<close>
  "copy_frames n src dst = take n src @ drop n dst"

definition ReportMalloc :: "Environment \<Rightarrow> StackTrace \<Rightarrow> DeallocationProfiler \<Rightarrow> DeallocationProfiler" where
  "ReportMalloc env stack_trace p =
     (let handle = sampled_alloc_handle stack_trace;
          old_stack = (case allocs p handle of
                         Some r \<Rightarrow> stack r
                       | None \<Rightarrow> replicate kMaxStackDepth 0);
          allocation =
            \<lparr>weight = fdiv (double_of_size (st_weight stack_trace))
                        (double_of_size (st_requested_size stack_trace + 1)),
             requested_size = st_requested_size stack_trace,
             requested_alignment = st_requested_alignment stack_trace,
             allocated_size = st_allocated_size stack_trace,
             depth = int (st_depth stack_trace),
             stack = copy_frames (min (st_depth stack_trace) kMaxStackDepth)
                       (st_stack stack_trace) old_stack,
             creation_time = allocation_time stack_trace,
             cpu_id = current_cpu env,
             thread_id = current_tid env\<rparr>
      in p\<lparr>allocs := (allocs p)(handle \<mapsto> allocation)\<rparr>)"

definition deallocation_record :: "Environment \<Rightarrow> DeallocationSampleRecord \<Rightarrow> DeallocationSampleRecord" where
  \<comment> \<open>lines 363 to 371 of \<^verbatim>\<open>ReportFree\<close>: the local \<^verbatim>\<open>deallocation\<close>, built from the
      record \<^verbatim>\<open>sample\<close> found in the in-flight map\<close>
  "deallocation_record env sample =
     (let captured = min (length (call_stack env)) kMaxStackDepth
      in \<lparr>weight = Finite 0,
          requested_size = requested_size sample,
          requested_alignment = requested_alignment sample,
          allocated_size = allocated_size sample,
          depth = int captured,
          stack = copy_frames captured (call_stack env) (uninitialized env),
          creation_time = now env,
          cpu_id = current_cpu env,
          thread_id = current_tid env\<rparr>)"

definition ReportFree :: "Environment \<Rightarrow> AllocHandle \<Rightarrow> DeallocationProfiler \<Rightarrow> DeallocationProfiler" where
  "ReportFree env handle p =
     (case allocs p handle of
        None \<Rightarrow> p
      | Some sample \<Rightarrow>
          p\<lparr>allocs := (allocs p)(handle := None),
            reports := AddTrace sample (deallocation_record env sample) (reports p)\<rparr>)"

text \<open>The events a profiler receives from the registry, and a run of them.\<close>

datatype event = Malloc Environment StackTrace | Free Environment AllocHandle

fun report :: "DeallocationProfiler \<Rightarrow> event \<Rightarrow> DeallocationProfiler" where
  "report p (Malloc env stack_trace) = ReportMalloc env stack_trace p"
| "report p (Free env handle) = ReportFree env handle p"

definition run :: "event list \<Rightarrow> DeallocationProfiler" where
  "run events = foldl report new_profiler events"

subsection \<open>Iterating over the aggregation table\<close>

text \<open>
  Modelled from the spec: \<^verbatim>\<open>Profile::Sample\<close> is declared in \<^verbatim>\<open>malloc_extension.h\<close>.
  These are the members \<^verbatim>\<open>Iterate\<close> writes; \<^verbatim>\<open>sum\<close> and \<^verbatim>\<open>count\<close> are \<^verbatim>\<open>int64_t\<close>, read
  with \<open>sint\<close>.
\<close>

record Sample =
  s_sum :: "64 word"
  s_count :: "64 word"
  s_requested_size :: "64 word"
  s_requested_alignment :: "64 word"
  s_allocated_size :: "64 word"
  s_profile_id :: "64 word"
  s_lifetime_ns :: "64 word"
  s_stddev_lifetime_ns :: "64 word"
  s_min_lifetime_ns :: "64 word"
  s_max_lifetime_ns :: "64 word"
  s_allocator_deallocator_cpu_matched :: bool
  s_allocator_deallocator_thread_matched :: bool
  s_depth :: int
  s_stack :: "pointer list"

definition and_then :: "error + 'a \<Rightarrow> ('a \<Rightarrow> error + 'b) \<Rightarrow> error + 'b" where
  "and_then r f = (case r of Inl e \<Rightarrow> Inl e | Inr x \<Rightarrow> f x)"

definition emit_pair ::
  "Key \<Rightarrow> Value \<Rightarrow> 64 word \<Rightarrow> CpuThreadMatchingStatus \<times> RpcMatchingStatus \<Rightarrow>
   error + Sample \<times> Sample" where
  \<comment> \<open>lines 474 to 516 of \<^verbatim>\<open>Iterate\<close>: the two samples passed to \<^verbatim>\<open>func\<close> for one
      populated slot\<close>
  "emit_pair k v pair_id matching_case =
     (let index = nat (ComputeIndex (fst matching_case) (snd matching_case));
          size = allocated_size (alloc k)
      in and_then
           (lround (fmul (fmul (counts v ! index) (weight (alloc k))) (double_of_size size)))
           (\<lambda>rounded.
      let bytes = (word_of_int rounded :: 64 word)
      in if size = 0 then Inl DivideByZero else
      let count = (bytes + size - 1) div size;
          sum = count * size;
          stddev_life_time_ns =
            fsqrt (fmax (Finite 0) (fdiv (variance_life_times_ns v ! index) (counts v ! index)))
      in and_then (LifetimeToBucketedLifetimeNanoseconds (mean_life_times_ns v ! index))
           (\<lambda>lifetime.
         and_then (LifetimeToBucketedLifetimeNanoseconds stddev_life_time_ns)
           (\<lambda>stddev_lifetime.
         and_then (LifetimeToBucketedLifetimeNanoseconds (min_life_times_ns v ! index))
           (\<lambda>min_lifetime.
         and_then (LifetimeToBucketedLifetimeNanoseconds (max_life_times_ns v ! index))
           (\<lambda>max_lifetime.
      let sample =
            \<lparr>s_sum = sum,
             s_count = 0,
             s_requested_size = requested_size (alloc k),
             s_requested_alignment = requested_alignment (alloc k),
             s_allocated_size = size,
             s_profile_id = pair_id,
             s_lifetime_ns = lifetime,
             s_stddev_lifetime_ns = stddev_lifetime,
             s_min_lifetime_ns = min_lifetime,
             s_max_lifetime_ns = max_lifetime,
             s_allocator_deallocator_cpu_matched = cpu_matched (fst matching_case),
             s_allocator_deallocator_thread_matched = thread_matched (fst matching_case),
             s_depth = 0,
             s_stack = replicate kMaxStackDepth 0\<rparr>;
          first =
            sample\<lparr>s_count := count,
                   s_depth := depth (alloc k),
                   s_stack := copy_frames (nat (depth (alloc k))) (stack (alloc k))
                                (s_stack sample)\<rparr>;
          second =
            first\<lparr>s_count := - 1 * count,
                  s_depth := depth (dealloc k),
                  s_stack := copy_frames (nat (depth (dealloc k))) (stack (dealloc k))
                               (s_stack first)\<rparr>
      in Inr (first, second)))))))"

fun iterate_cases ::
  "Key \<Rightarrow> Value \<Rightarrow> 64 word \<Rightarrow> (CpuThreadMatchingStatus \<times> RpcMatchingStatus) list \<Rightarrow>
   error + Sample list \<times> 64 word" where
  "iterate_cases k v pair_id [] = Inr ([], pair_id)"
| "iterate_cases k v pair_id (matching_case # cases) =
     (if feq (counts v ! nat (ComputeIndex (fst matching_case) (snd matching_case))) (Finite 0)
      then iterate_cases k v pair_id cases
      else and_then (emit_pair k v pair_id matching_case)
             (\<lambda>(first, second).
           and_then (iterate_cases k v (pair_id + 1) cases)
             (\<lambda>(samples, next_id). Inr (first # second # samples, next_id))))"

fun iterate_table :: "DeallocationStackTraceTable \<Rightarrow> 64 word \<Rightarrow> error + Sample list" where
  "iterate_table [] pair_id = Inr []"
| "iterate_table ((k, v) # table) pair_id =
     and_then (iterate_cases k v pair_id kAllCases)
       (\<lambda>(samples, next_id).
     and_then (iterate_table table next_id)
       (\<lambda>rest. Inr (samples @ rest)))"

definition Iterate :: "DeallocationStackTraceTable \<Rightarrow> error + Sample list" where
  \<comment> \<open>the samples passed to \<^verbatim>\<open>func\<close>, in order\<close>
  "Iterate table = iterate_table table 1"

subsection \<open>Definitions used by the statements\<close>

text \<open>
  The encoding of the RPC status as the specification words it: 0 for an id unknown on
  either side, 1 for two different ids, 2 for two equal ids.
\<close>

definition claimed_rpc_status :: "64 word \<Rightarrow> 64 word \<Rightarrow> int" where
  "claimed_rpc_status alloc_id dealloc_id =
     (if alloc_id = 0 \<or> dealloc_id = 0 then 0 else if alloc_id = dealloc_id then 2 else 1)"

definition sizes_agree :: "Key \<Rightarrow> bool" where
  "sizes_agree k \<longleftrightarrow>
     requested_size (dealloc k) = requested_size (alloc k) \<and>
     requested_alignment (dealloc k) = requested_alignment (alloc k) \<and>
     allocated_size (dealloc k) = allocated_size (alloc k)"

text \<open>
  The power-of-ten cutoffs of the bucketizer, the smallest and the largest cutoff above
  a lifetime, and the bucket of a lifetime in closed form.
\<close>

definition cutoffs :: "nat set" where
  "cutoffs = {10, 100, 1000, 10000, 100000, 1000000}"

definition smallest_cutoff :: "real \<Rightarrow> nat" where
  "smallest_cutoff x = Min {c \<in> cutoffs. x < real c}"

definition largest_cutoff :: "real \<Rightarrow> nat" where
  "largest_cutoff x = Max {c \<in> cutoffs. x < real c}"

definition bucket_of :: "real \<Rightarrow> nat" where
  "bucket_of x =
     (if x < 10 then 1 else if x < 100 then 10 else if x < 1000 then 100
      else if x < 10000 then 1000 else if x < 100000 then 10000
      else if x < 1000000 then 100000 else nat \<lfloor>x / 1000000\<rfloor> * 1000000)"

text \<open>
  The entry \<^verbatim>\<open>table_.find(key)\<close> would return, and the state of slot \<open>i\<close> of a value after
  \<open>n\<close> lifetimes that are all equal to \<open>L\<close>.
\<close>

definition find_entry :: "Key \<Rightarrow> DeallocationStackTraceTable \<Rightarrow> (Key \<times> Value) option" where
  "find_entry key table = find (\<lambda>(k, v). key_eq k key) table"

definition constant_slot :: "Value \<Rightarrow> nat \<Rightarrow> nat \<Rightarrow> real \<Rightarrow> bool" where
  "constant_slot v i n L \<longleftrightarrow>
     length (counts v) = kNumCases \<and> length (mean_life_times_ns v) = kNumCases \<and>
     length (variance_life_times_ns v) = kNumCases \<and>
     length (min_life_times_ns v) = kNumCases \<and> length (max_life_times_ns v) = kNumCases \<and>
     counts v ! i = Finite (real n) \<and> mean_life_times_ns v ! i = Finite L \<and>
     variance_life_times_ns v ! i = Finite 0 \<and> min_life_times_ns v ! i = Finite L \<and>
     max_life_times_ns v ! i = Finite (max 0 L)"

text \<open>
  The slots \<^verbatim>\<open>Iterate\<close> does not skip, in the order it visits them: for each entry of the
  table, the cases of \<open>kAllCases\<close> whose count is not zero.  \<open>byte_total\<close> is the value
  \<^verbatim>\<open>std::lround\<close> returns for a slot on line 475, and \<open>emitted\<close> the samples of a list of
  slots, numbered from \<open>pair_id\<close>.
\<close>

type_synonym matching_case = "CpuThreadMatchingStatus \<times> RpcMatchingStatus"

definition populated_cases :: "Value \<Rightarrow> matching_case list" where
  "populated_cases v =
     filter (\<lambda>c. \<not> feq (counts v ! nat (ComputeIndex (fst c) (snd c))) (Finite 0)) kAllCases"

definition populated_slots :: "DeallocationStackTraceTable \<Rightarrow> (Key \<times> Value \<times> matching_case) list" where
  "populated_slots table = concat (map (\<lambda>(k, v). map (\<lambda>c. (k, v, c)) (populated_cases v)) table)"

definition byte_total :: "Key \<Rightarrow> Value \<Rightarrow> matching_case \<Rightarrow> error + int" where
  "byte_total k v c =
     lround (fmul (fmul (counts v ! nat (ComputeIndex (fst c) (snd c))) (weight (alloc k)))
               (double_of_size (allocated_size (alloc k))))"

fun emitted :: "64 word \<Rightarrow> (Key \<times> Value \<times> matching_case) list \<Rightarrow> error + Sample list" where
  "emitted pair_id [] = Inr []"
| "emitted pair_id ((k, v, c) # slots) =
     and_then (emit_pair k v pair_id c)
       (\<lambda>(first, second).
     and_then (emitted (pair_id + 1) slots)
       (\<lambda>rest. Inr (first # second # rest)))"

text \<open>
  The count as the specification words it: \<open>round (slot.count * alloc.weight *
  allocated_size / allocated_size)\<close>.
\<close>

definition claimed_count :: "real \<Rightarrow> real \<Rightarrow> real \<Rightarrow> int" where
  "claimed_count slot_count alloc_weight object_size =
     round (slot_count * alloc_weight * object_size / object_size)"

text \<open>
  A sampled allocation of 31 bytes in a 32-byte object, with handle 7 and sampling weight
  1024, allocated at 1000 ns and freed at 5000 ns on the same CPU and thread.
\<close>

definition example_trace :: StackTrace where
  "example_trace =
     \<lparr>sampled_alloc_handle = 7, st_requested_size = 31, st_requested_alignment = 8,
      st_allocated_size = 32, st_depth = 2, st_stack = [4096, 4100] @ replicate 62 0,
      st_weight = 1024, allocation_time = 1000\<rparr>"

definition example_env :: Environment where
  "example_env =
     \<lparr>now = 5000, current_cpu = 0, current_tid = 100, call_stack = [8192, 4100],
      uninitialized = replicate 64 0\<rparr>"

definition example_sample :: DeallocationSampleRecord where
  "example_sample = the (allocs (ReportMalloc example_env example_trace new_profiler) 7)"

text \<open>
  The deallocation record of that free, and the one of a free whose clock reads 995 ns,
  five nanoseconds before the allocation (clock skew).
\<close>

definition example_deallocation :: DeallocationSampleRecord where
  "example_deallocation = deallocation_record example_env example_sample"

definition skewed_deallocation :: DeallocationSampleRecord where
  "skewed_deallocation = deallocation_record (example_env\<lparr>now := 995\<rparr>) example_sample"

text \<open>
  The profile of one allocation that is reported and then freed in the environment above:
  the record stored for the trace, the key and the table after the free, and the samples
  of the table.  The free is on the CPU and thread of the allocation, and the table has
  one entry with one lifetime of 4000 ns.  Two more traces: one with sampling weight 0,
  and one with weight 5 for a request of 3 bytes in an 8-byte object.
\<close>

definition sample_of :: "StackTrace \<Rightarrow> DeallocationSampleRecord" where
  "sample_of st = the (allocs (ReportMalloc example_env st new_profiler) (sampled_alloc_handle st))"

definition key_of :: "StackTrace \<Rightarrow> Key" where
  "key_of st = \<lparr>alloc = sample_of st, dealloc = deallocation_record example_env (sample_of st)\<rparr>"

definition table_of :: "StackTrace \<Rightarrow> DeallocationStackTraceTable" where
  "table_of st = reports (run [Malloc example_env st, Free example_env (sampled_alloc_handle st)])"

definition samples_of :: "StackTrace \<Rightarrow> Sample list" where
  "samples_of st = (case Iterate (table_of st) of Inr samples \<Rightarrow> samples | Inl e \<Rightarrow> [])"

definition same_cpu_and_thread :: matching_case where
  "same_cpu_and_thread = (CpuThreadMatchingStatus True True, RpcMatchingStatus 0 0)"

definition one_lifetime :: Value where
  "one_lifetime = update_slot 11 (Finite 4000) Value"

definition zero_weight_trace :: StackTrace where
  "zero_weight_trace = example_trace\<lparr>st_weight := 0\<rparr>"

definition fractional_trace :: StackTrace where
  "fractional_trace =
     example_trace\<lparr>st_weight := 5, st_requested_size := 3, st_allocated_size := 8\<rparr>"

text \<open>
  The profile of two allocations that are reported and freed one after the other: the
  first of 31 bytes in a 32-byte object, the second of 3 bytes in an 8-byte object.
\<close>

definition two_frees_table :: DeallocationStackTraceTable where
  "two_frees_table =
     reports (run [Malloc example_env example_trace, Free example_env 7,
                   Malloc example_env fractional_trace, Free example_env 7])"

definition two_frees_samples :: "Sample list" where
  "two_frees_samples = (case Iterate two_frees_table of Inr samples \<Rightarrow> samples | Inl e \<Rightarrow> [])"

section \<open>Properties\<close>

subsection \<open>Rounding to double precision\<close>

lemma binade_bounds:
  assumes "x \<noteq> 0"
  shows "2 powi binade x \<le> \<bar>x\<bar>" and "\<bar>x\<bar> < 2 powi (binade x + 1)"
proof -
  have pos: "0 < \<bar>x\<bar>" using assms by simp
  have "\<lfloor>log 2 \<bar>x\<bar>\<rfloor> = binade x" by (simp add: binade_def)
  then have "2 powr real_of_int (binade x) \<le> \<bar>x\<bar> \<and> \<bar>x\<bar> < 2 powr real_of_int (binade x + 1)"
    using floor_log_eq_powr_iff [OF pos, of 2 "binade x"] by simp
  moreover have "(2::real) powr real_of_int (binade x) = 2 powi binade x"
    by (rule powr_real_of_int') simp_all
  moreover have "(2::real) powr real_of_int (binade x + 1) = 2 powi (binade x + 1)"
    by (rule powr_real_of_int') simp_all
  ultimately show "2 powi binade x \<le> \<bar>x\<bar>" and "\<bar>x\<bar> < 2 powi (binade x + 1)"
    by (simp_all only:)
qed

lemma binade_eqI:
  assumes "2 powi g \<le> \<bar>x\<bar>" and "\<bar>x\<bar> < 2 powi (g + 1)"
  shows "binade x = g"
proof -
  have "0 < (2::real) powi g" by (simp add: zero_less_power_int)
  then have pos: "0 < \<bar>x\<bar>" using assms(1) by linarith
  have "(2::real) powr real_of_int g = 2 powi g"
    by (rule powr_real_of_int') simp_all
  moreover have "(2::real) powr real_of_int (g + 1) = 2 powi (g + 1)"
    by (rule powr_real_of_int') simp_all
  ultimately have "2 powr real_of_int g \<le> \<bar>x\<bar> \<and> \<bar>x\<bar> < 2 powr real_of_int (g + 1)"
    using assms by (simp only:)
  then show ?thesis
    unfolding binade_def using floor_log_eq_powr_iff [OF pos, of 2 g] by simp
qed

lemma binade_le:
  assumes "x \<noteq> 0" and "\<bar>x\<bar> < 2 powi n"
  shows "binade x < n"
proof (rule ccontr)
  assume "\<not> binade x < n"
  then have "n \<le> binade x" by simp
  then have "(2::real) powi n \<le> 2 powi binade x" by (intro power_int_increasing) simp_all
  with binade_bounds(1) [OF assms(1)] assms(2) show False by linarith
qed

lemma binade_ge:
  assumes "2 powi n \<le> \<bar>x\<bar>"
  shows "n \<le> binade x"
proof (rule ccontr)
  assume "\<not> n \<le> binade x"
  then have "binade x + 1 \<le> n" by simp
  then have le: "(2::real) powi (binade x + 1) \<le> 2 powi n" by (intro power_int_increasing) simp_all
  have "0 < (2::real) powi n" by (simp add: zero_less_power_int)
  then have "0 < \<bar>x\<bar>" using assms by linarith
  then have "x \<noteq> 0" by simp
  from binade_bounds(2) [OF this] le assms show False by linarith
qed

lemma round_half_even_of_int [simp]: "round_half_even (of_int k) = k"
  by (simp add: round_half_even_def)

lemma round_half_even_ge_floor: "\<lfloor>y\<rfloor> \<le> round_half_even y"
  by (simp add: round_half_even_def Let_def)

lemma round_half_even_less:
  assumes "y < of_int K - 1 / 2"
  shows "round_half_even y < K"
proof -
  have f: "of_int \<lfloor>y\<rfloor> \<le> y" by simp
  show ?thesis
  proof (cases "y - of_int \<lfloor>y\<rfloor> < 1 / 2")
    case True
    then have "round_half_even y = \<lfloor>y\<rfloor>" by (simp add: round_half_even_def Let_def)
    moreover have "real_of_int \<lfloor>y\<rfloor> < of_int K" using f assms by linarith
    ultimately show ?thesis by simp
  next
    case False
    then have "round_half_even y \<le> \<lfloor>y\<rfloor> + 1" by (simp add: round_half_even_def Let_def)
    moreover have "real_of_int \<lfloor>y\<rfloor> + 1 < of_int K" using False assms by linarith
    then have "\<lfloor>y\<rfloor> + 1 < K" by linarith
    ultimately show ?thesis by simp
  qed
qed

lemma round_half_even_nearest:
  assumes "\<bar>y - of_int K\<bar> < 1 / 2"
  shows "round_half_even y = K"
proof -
  have "\<lfloor>y\<rfloor> = K \<or> \<lfloor>y\<rfloor> = K - 1" using assms by linarith
  then show ?thesis
  proof
    assume fl: "\<lfloor>y\<rfloor> = K"
    have "y - of_int K < 1 / 2" using assms by linarith
    then show ?thesis unfolding round_half_even_def Let_def fl by simp
  next
    assume fl: "\<lfloor>y\<rfloor> = K - 1"
    have "of_int K - 1 / 2 < y" using assms unfolding abs_less_iff by linarith
    then have "1 / 2 < y - of_int (K - 1)" by simp
    then have "\<not> y - of_int (K - 1) < 1 / 2" by linarith
    then show ?thesis unfolding round_half_even_def Let_def fl
      using \<open>1 / 2 < y - of_int (K - 1)\<close> by simp
  qed
qed

lemma round_to_grid_nearest:
  assumes "x \<noteq> 0" and "ulp_exp x = e" and "\<bar>x / 2 powi e - of_int K\<bar> < 1 / 2"
  shows "round_to_grid x = of_int K * 2 powi e"
  using assms by (simp add: round_to_grid_def round_half_even_nearest)

lemma round_to_grid_on_grid:
  assumes "x = of_int a * 2 powi e" and "ulp_exp x \<le> e"
  shows "round_to_grid x = x"
proof (cases "x = 0")
  case True then show ?thesis by (simp add: round_to_grid_def)
next
  case False
  define u where "u = ulp_exp x"
  have "e = u + (e - u)" by simp
  then have "(2::real) powi e = 2 powi u * 2 powi (e - u)"
    by (metis power_int_add zero_neq_numeral)
  moreover have "(2::real) powi (e - u) = of_int (2 ^ nat (e - u))"
    using assms(2) by (simp add: u_def power_int_def)
  ultimately have "x / 2 powi u = of_int (a * 2 ^ nat (e - u))"
    using assms(1) by simp
  then have "round_half_even (x / 2 powi u) = a * 2 ^ nat (e - u)"
    by (simp only: round_half_even_of_int)
  then have "round_to_grid x = of_int (a * 2 ^ nat (e - u)) * 2 powi u"
    using False by (simp add: round_to_grid_def u_def)
  also have "\<dots> = x" using \<open>x / 2 powi u = of_int (a * 2 ^ nat (e - u))\<close>
    by (metis nonzero_divide_eq_eq power_int_eq_0_iff zero_neq_numeral)
  finally show ?thesis .
qed



lemma ulp_exp_normal:
  assumes "2 powi g \<le> \<bar>x\<bar>" and "- 1022 \<le> g"
  shows "ulp_exp x = binade x - 52"
  using binade_ge [OF assms(1)] assms(2) by (simp add: ulp_exp_def)

lemma round_to_grid_of_int:
  assumes "\<bar>n\<bar> \<le> 2 ^ 53"
  shows "round_to_grid (of_int n) = of_int n"
proof (cases "n = 0")
  case True then show ?thesis by (simp add: round_to_grid_def)
next
  case False
  show ?thesis
  proof (cases "\<bar>n\<bar> < 2 ^ 53")
    case True
    then have "\<bar>real_of_int n\<bar> < 2 powi 53"
      by (metis of_int_abs of_int_less_numeral_power_cancel_iff power_int_numeral
          numeral_power_eq_of_int_cancel_iff of_int_numeral of_int_power power_int_def)
    then have "binade (of_int n) < 53" using False by (intro binade_le) simp_all
    then have "ulp_exp (of_int n) \<le> 0" by (simp add: ulp_exp_def)
    then show ?thesis by (intro round_to_grid_on_grid [where a = n and e = 0]) simp_all
  next
    case False
    with assms have eq: "\<bar>n\<bar> = 2 ^ 53" by simp
    then have r: "\<bar>real_of_int n\<bar> = 2 ^ 53"
      by (metis of_int_abs of_int_numeral of_int_power)
    have "binade (of_int n) = 53"
      by (rule binade_eqI) (simp_all add: r)
    then have u: "ulp_exp (of_int n) = 1" by (simp add: ulp_exp_def)
    have "n = 2 ^ 53 \<or> n = - (2 ^ 53)" using eq by linarith
    then have "n = 2 * (n div 2)" by auto
    then have "real_of_int n = of_int (n div 2) * 2 powi 1"
      by (metis mult.commute of_int_mult of_int_numeral power_int_1_right)
    then show ?thesis by (rule round_to_grid_on_grid) (simp add: u)
  qed
qed

lemma DBL_MAX_ge: "2 ^ 64 \<le> DBL_MAX"
proof -
  have "(2::real) ^ 64 \<le> 1 * 2 ^ 971" by simp
  also have "\<dots> \<le> (2 ^ 53 - 1) * 2 ^ 971" by (intro mult_right_mono) simp_all
  finally show ?thesis by (simp add: DBL_MAX_def)
qed

lemma DBL_MAX_pos: "0 < DBL_MAX"
proof -
  have "(0::real) < 2 ^ 64" by simp
  then show ?thesis using DBL_MAX_ge by linarith
qed

lemma is_double_of_int:
  assumes "\<bar>n\<bar> \<le> 2 ^ 53"
  shows "is_double (of_int n)"
proof -
  have "\<bar>real_of_int n\<bar> \<le> 2 ^ 53" using assms
    by (metis of_int_abs of_int_le_numeral_power_cancel_iff)
  also have "\<dots> \<le> (2::real) ^ 64" by simp
  finally have "\<bar>real_of_int n\<bar> \<le> DBL_MAX" using DBL_MAX_ge by linarith
  then show ?thesis using round_to_grid_of_int [OF assms] by (simp add: is_double_def)
qed

lemma to_double_exact:
  assumes "is_double x"
  shows "to_double x = Finite x"
  using assms by (auto simp: to_double_def is_double_def Let_def)

lemma is_double_grid:
  assumes "is_double x"
  shows "\<exists>a. x = of_int a * 2 powi ulp_exp x"
proof (cases "x = 0")
  case True then show ?thesis by (intro exI [where x = 0]) simp
next
  case False
  from assms have "round_to_grid x = x" by (simp add: is_double_def)
  then have "x = of_int (round_half_even (x / 2 powi ulp_exp x)) * 2 powi ulp_exp x"
    using False by (simp add: round_to_grid_def)
  then show ?thesis by blast
qed

lemma grid_gap:
  fixes x t :: real
  assumes "x = of_int a * 2 powi d" and "t = of_int b * 2 powi d" and "x < t"
  shows "2 powi d \<le> t - x"
proof -
  have pos: "0 < (2::real) powi d" by (simp add: zero_less_power_int)
  have "real_of_int a * 2 powi d < of_int b * 2 powi d" using assms by simp
  then have "real_of_int a < of_int b" using pos by (simp add: mult_less_cancel_right)
  then have "a + 1 \<le> b" by linarith
  then have "real_of_int a + 1 \<le> of_int b" by linarith
  then have "(real_of_int a + 1) * 2 powi d \<le> of_int b * 2 powi d"
    using pos by (intro mult_right_mono) simp_all
  then show ?thesis using assms by (simp add: algebra_simps)
qed

lemma regrid:
  assumes "d \<le> e"
  shows "of_int a * 2 powi e = of_int (a * 2 ^ nat (e - d)) * (2::real) powi d"
proof -
  have "e = d + (e - d)" by simp
  then have "(2::real) powi e = 2 powi d * 2 powi (e - d)"
    by (metis power_int_add zero_neq_numeral)
  moreover have "(2::real) powi (e - d) = of_int (2 ^ nat (e - d))"
    using assms by (simp add: power_int_def)
  ultimately show ?thesis by simp
qed

lemma pow2_split:
  assumes "c = a + b"
  shows "(2::real) powi c = 2 powi a * 2 powi b"
  unfolding assms by (rule power_int_add) simp

lemma floor_div_million:
  assumes dbl: "is_double x" and lo: "1000000 \<le> x" and hi: "x < 2 ^ 40 * 1000000"
  shows "\<lfloor>round_to_grid (x / 1000000)\<rfloor> = \<lfloor>x / 1000000\<rfloor>"
proof -
  define q where "q = x / 1000000"
  define n where "n = \<lfloor>q\<rfloor>"
  define bq where "bq = binade q"
  define e where "e = bq - 52"
  define u :: real where "u = 2 powi e"
  define T :: real where "T = of_int (n + 1) * 1000000"
  have upos: "0 < u" by (simp add: u_def zero_less_power_int)
  have q1: "1 \<le> q" and q40: "q < 2 ^ 40" using lo hi by (simp_all add: q_def)
  have qne: "q \<noteq> 0" using q1 by simp
  have n1: "1 \<le> n" using q1 by (simp add: n_def)
  have nq: "of_int n \<le> q" and qn: "q < of_int n + 1" by (simp_all add: n_def)
  have bq0: "0 \<le> bq" unfolding bq_def by (rule binade_ge) (use q1 in simp)
  have bq39: "bq < 40" unfolding bq_def by (rule binade_le [OF qne]) (use q1 q40 in simp)
  have uq: "ulp_exp q = e" using bq0 by (simp add: ulp_exp_def e_def bq_def)
  have eneg: "e \<le> 0" using bq39 by (simp add: e_def)
  have rq: "round_to_grid q = of_int (round_half_even (q / u)) * u"
    using qne by (simp add: round_to_grid_def uq u_def)
  \<comment> \<open>integers lie on the grid of \<open>q\<close>\<close>
  define m :: int where "m = 2 ^ nat (- e)"
  have "real_of_int m = 2 powi (- e)" using eneg by (simp add: m_def power_int_def)
  then have um: "real_of_int m * u = 1"
    by (simp add: u_def power_int_minus)
  have mu: "real_of_int m = 1 / u" using um upos by (simp add: field_simps)
  have int_grid: "real_of_int (k * m) = of_int k / u" for k
    by (simp add: mu)
  \<comment> \<open>lower bound\<close>
  have "of_int n / u \<le> q / u" using nq upos by (simp add: divide_right_mono)
  then have "of_int (n * m) \<le> q / u" by (simp only: int_grid)
  then have "n * m \<le> \<lfloor>q / u\<rfloor>" by (simp only: le_floor_iff)
  then have "n * m \<le> round_half_even (q / u)"
    using round_half_even_ge_floor [of "q / u"] by linarith
  then have "real_of_int (n * m) \<le> of_int (round_half_even (q / u))" by linarith
  then have "real_of_int (n * m) * u \<le> of_int (round_half_even (q / u)) * u"
    using upos by (intro mult_right_mono) simp_all
  moreover have "real_of_int (n * m) * u = of_int n"
    by (simp only: int_grid) (use upos in simp)
  ultimately have lower: "of_int n \<le> round_to_grid q" by (simp only: rq)
  \<comment> \<open>the gap between \<open>x\<close> and the next multiple of a million\<close>
  have xT: "x < T" using qn by (simp add: T_def q_def)
  have xne: "x \<noteq> 0" using lo by simp
  define gx where "gx = binade x"
  have gx19: "19 \<le> gx" unfolding gx_def by (rule binade_ge) (use lo in simp)
  have gx60: "gx < 60" unfolding gx_def by (rule binade_le [OF xne]) (use lo hi in simp)
  have ux: "ulp_exp x = gx - 52" using gx19 by (simp add: ulp_exp_def gx_def)
  obtain a where xa: "x = of_int a * 2 powi (gx - 52)"
    using is_double_grid [OF dbl] ux by auto
  define d where "d = min (gx - 52) 6"
  have xd: "x = of_int (a * 2 ^ nat (gx - 52 - d)) * 2 powi d"
    using xa regrid [of d "gx - 52" a] by (simp add: d_def)
  have "T = of_int ((n + 1) * 15625) * 2 powi 6" by (simp add: T_def)
  then have Td: "T = of_int ((n + 1) * 15625 * 2 ^ nat (6 - d)) * 2 powi d"
    using regrid [of d 6 "(n + 1) * 15625"] by (simp add: d_def)
  have gap: "2 powi d \<le> T - x" by (rule grid_gap [OF xd Td xT])
  \<comment> \<open>half a unit in the last place of \<open>q\<close> is smaller than that gap\<close>
  have bqq: "2 powi bq \<le> q" using binade_bounds(1) [OF qne] q1 by (simp add: bq_def)
  have xg: "x < 2 powi (gx + 1)" using binade_bounds(2) [OF xne] lo by (simp add: gx_def)
  have half: "1000000 * 2 powi (bq - 53) < (2::real) powi d"
  proof (cases "gx - 52 \<le> 6")
    case True
    then have dd: "d = gx - 52" by (simp add: d_def)
    have "1000000 * 2 powi bq \<le> x" using bqq by (simp add: q_def)
    then have "1000000 * 2 powi bq < (2::real) powi (gx + 1)" using xg by linarith
    moreover have "(2::real) powi bq = 2 powi (bq - 53) * 2 powi 53"
      by (rule pow2_split) simp
    moreover have "(2::real) powi (gx + 1) = 2 powi (gx - 52) * 2 powi 53"
      by (rule pow2_split) simp
    ultimately have "(1000000 * 2 powi (bq - 53)) * 2 powi 53 < (2::real) powi (gx - 52) * 2 powi 53"
      by (simp add: mult.assoc)
    then show ?thesis by (simp add: dd)
  next
    case False
    then have dd: "d = 6" by (simp add: d_def)
    have "bq - 53 \<le> - 14" using bq39 by simp
    then have "(2::real) powi (bq - 53) \<le> 2 powi (- 14)" by (intro power_int_increasing) simp_all
    then have "1000000 * (2::real) powi (bq - 53) \<le> 1000000 * 2 powi (- 14)" by simp
    also have "\<dots> < (2::real) powi 6" by (simp add: power_int_minus)
    finally show ?thesis by (simp add: dd)
  qed
  have "u / 2 = 2 powi (bq - 53)"
  proof -
    have "bq - 52 = (bq - 53) + 1" by simp
    then have "(2::real) powi (bq - 52) = 2 powi (bq - 53) * 2 powi 1"
      by (rule pow2_split)
    then show ?thesis by (simp add: u_def e_def)
  qed
  then have "1000000 * (u / 2) < T - x" using half gap by linarith
  then have "u / 2 < (T - x) / 1000000" by simp
  also have "\<dots> = of_int (n + 1) - q" by (simp add: T_def q_def diff_divide_distrib)
  finally have "q < of_int (n + 1) - u / 2" by linarith
  then have "q / u < (of_int (n + 1) - u / 2) / u" using upos by (simp add: divide_strict_right_mono)
  also have "\<dots> = of_int (n + 1) / u - 1 / 2"
    using upos by (simp add: diff_divide_distrib)
  also have "\<dots> = of_int ((n + 1) * m) - 1 / 2" by (simp only: int_grid)
  finally have "round_half_even (q / u) < (n + 1) * m"
    by (rule round_half_even_less)
  then have "real_of_int (round_half_even (q / u)) < of_int ((n + 1) * m)"
    by linarith
  then have "real_of_int (round_half_even (q / u)) * u < of_int ((n + 1) * m) * u"
    using upos by (simp only: mult_less_cancel_right) simp
  moreover have "real_of_int ((n + 1) * m) * u = of_int (n + 1)"
    by (simp only: int_grid) (use upos in simp)
  ultimately have "round_to_grid q < of_int (n + 1)" by (simp only: rq)
  then have upper: "round_to_grid q < of_int n + 1" by simp
  from lower upper have "\<lfloor>round_to_grid q\<rfloor> = n" by linarith
  then show ?thesis by (simp add: q_def n_def)
qed

text \<open>
  Rounding is monotone on the positive reals, and a product that is finite is the rounded
  product of two finite factors.
\<close>

lemma round_half_even_le_floor_plus: "round_half_even y \<le> \<lfloor>y\<rfloor> + 1"
  by (simp add: round_half_even_def Let_def)

lemma round_half_even_mono:
  assumes "a \<le> b"
  shows "round_half_even a \<le> round_half_even b"
proof (cases "\<lfloor>a\<rfloor> < \<lfloor>b\<rfloor>")
  case True
  have "round_half_even a \<le> \<lfloor>a\<rfloor> + 1" by (rule round_half_even_le_floor_plus)
  also have "\<dots> \<le> \<lfloor>b\<rfloor>" using True by simp
  also have "\<dots> \<le> round_half_even b" by (rule round_half_even_ge_floor)
  finally show ?thesis .
next
  case False
  moreover have "\<lfloor>a\<rfloor> \<le> \<lfloor>b\<rfloor>" using assms by (rule floor_mono)
  ultimately have f: "\<lfloor>a\<rfloor> = \<lfloor>b\<rfloor>" by simp
  have "a - of_int \<lfloor>b\<rfloor> \<le> b - of_int \<lfloor>b\<rfloor>" using assms by simp
  then show ?thesis unfolding round_half_even_def Let_def f by auto
qed

lemma binade_mono:
  assumes "x \<noteq> 0" and "\<bar>x\<bar> \<le> \<bar>y\<bar>"
  shows "binade x \<le> binade y"
proof (rule binade_ge)
  show "2 powi binade x \<le> \<bar>y\<bar>" using binade_bounds(1) [OF assms(1)] assms(2) by linarith
qed

lemma round_to_grid_le_pow2:
  assumes "0 < x" and "x \<le> 2 powi g" and "ulp_exp x \<le> g"
  shows "round_to_grid x \<le> 2 powi g"
proof -
  define u :: real where "u = 2 powi ulp_exp x"
  have upos: "0 < u" by (simp add: u_def zero_less_power_int)
  have P: "(2::real) powi g = of_int (2 ^ nat (g - ulp_exp x)) * u"
    using regrid [OF assms(3), of 1] by (simp add: u_def)
  have "x / u \<le> 2 powi g / u" using assms(2) upos by (simp add: divide_right_mono)
  also have "\<dots> = of_int (2 ^ nat (g - ulp_exp x))" using upos by (simp only: P) simp
  finally have "round_half_even (x / u) \<le> round_half_even (of_int (2 ^ nat (g - ulp_exp x)))"
    by (rule round_half_even_mono)
  then have "round_half_even (x / u) \<le> 2 ^ nat (g - ulp_exp x)"
    by (simp only: round_half_even_of_int)
  then have "real_of_int (round_half_even (x / u)) \<le> of_int (2 ^ nat (g - ulp_exp x))"
    by (simp only: of_int_le_iff)
  then have "real_of_int (round_half_even (x / u)) * u \<le> of_int (2 ^ nat (g - ulp_exp x)) * u"
    using upos by (intro mult_right_mono) simp_all
  then show ?thesis using assms(1) by (simp only: P) (simp add: round_to_grid_def u_def)
qed

lemma round_to_grid_ge_pow2:
  assumes "2 powi g \<le> y" and "ulp_exp y \<le> g"
  shows "2 powi g \<le> round_to_grid y"
proof -
  define u :: real where "u = 2 powi ulp_exp y"
  have upos: "0 < u" by (simp add: u_def zero_less_power_int)
  have "0 < (2::real) powi g" by (simp add: zero_less_power_int)
  then have ypos: "0 < y" using assms(1) by linarith
  have P: "(2::real) powi g = of_int (2 ^ nat (g - ulp_exp y)) * u"
    using regrid [OF assms(2), of 1] by (simp add: u_def)
  have "2 powi g / u \<le> y / u" using assms(1) upos by (simp add: divide_right_mono)
  moreover have "2 powi g / u = of_int (2 ^ nat (g - ulp_exp y))" using upos by (simp only: P) simp
  ultimately have "real_of_int (2 ^ nat (g - ulp_exp y)) \<le> y / u" by (simp only:)
  then have "round_half_even (of_int (2 ^ nat (g - ulp_exp y))) \<le> round_half_even (y / u)"
    by (rule round_half_even_mono)
  then have "2 ^ nat (g - ulp_exp y) \<le> round_half_even (y / u)"
    by (simp only: round_half_even_of_int)
  then have "real_of_int (2 ^ nat (g - ulp_exp y)) \<le> of_int (round_half_even (y / u))"
    by (simp only: of_int_le_iff)
  then have "of_int (2 ^ nat (g - ulp_exp y)) * u \<le> real_of_int (round_half_even (y / u)) * u"
    using upos by (intro mult_right_mono) simp_all
  then show ?thesis using ypos by (simp only: P) (simp add: round_to_grid_def u_def)
qed

lemma round_to_grid_mono_pos:
  assumes "0 < x" and "x \<le> y"
  shows "round_to_grid x \<le> round_to_grid y"
proof -
  have xne: "x \<noteq> 0" and yne: "y \<noteq> 0" and ypos: "0 < y" using assms by simp_all
  have b: "binade x \<le> binade y" by (rule binade_mono [OF xne]) (use assms in simp)
  then have e: "ulp_exp x \<le> ulp_exp y" by (simp add: ulp_exp_def)
  show ?thesis
  proof (cases "ulp_exp x = ulp_exp y")
    case True
    define u :: real where "u = 2 powi ulp_exp y"
    have upos: "0 < u" by (simp add: u_def zero_less_power_int)
    have "x / u \<le> y / u" using assms(2) upos by (simp add: divide_right_mono)
    then have "round_half_even (x / u) \<le> round_half_even (y / u)" by (rule round_half_even_mono)
    then have "real_of_int (round_half_even (x / u)) \<le> of_int (round_half_even (y / u))"
      by (simp only: of_int_le_iff)
    then have "real_of_int (round_half_even (x / u)) * u \<le> of_int (round_half_even (y / u)) * u"
      using upos by (intro mult_right_mono) simp_all
    then show ?thesis using xne yne by (simp add: round_to_grid_def True u_def)
  next
    case False
    with e have lt: "ulp_exp x < ulp_exp y" by simp
    then have ey: "ulp_exp y = binade y - 52" unfolding ulp_exp_def by linarith
    have bl: "binade x < binade y" using lt ey unfolding ulp_exp_def by linarith
    define g where "g = binade y"
    have "x < 2 powi (binade x + 1)" using binade_bounds(2) [OF xne] assms(1) by simp
    also have "\<dots> \<le> 2 powi g" unfolding g_def using bl by (intro power_int_increasing) simp_all
    finally have xg: "x \<le> 2 powi g" by simp
    have gy: "2 powi g \<le> y" unfolding g_def using binade_bounds(1) [OF yne] ypos by simp
    have "ulp_exp x \<le> g" using lt ey by (simp add: g_def)
    then have 1: "round_to_grid x \<le> 2 powi g" by (rule round_to_grid_le_pow2 [OF assms(1) xg])
    have "ulp_exp y \<le> g" using ey by (simp add: g_def)
    then have 2: "2 powi g \<le> round_to_grid y" by (rule round_to_grid_ge_pow2 [OF gy])
    from 1 2 show ?thesis by linarith
  qed
qed

lemma round_to_grid_nonneg:
  assumes "0 \<le> x"
  shows "0 \<le> round_to_grid x"
proof (cases "x = 0")
  case True then show ?thesis by (simp add: round_to_grid_def)
next
  case False
  have "0 \<le> x / 2 powi ulp_exp x" using assms by (simp add: zero_less_power_int)
  then have "0 \<le> \<lfloor>x / 2 powi ulp_exp x\<rfloor>" by simp
  then have "0 \<le> round_half_even (x / 2 powi ulp_exp x)"
    using round_half_even_ge_floor [of "x / 2 powi ulp_exp x"] by linarith
  then show ?thesis using False by (simp add: round_to_grid_def zero_less_power_int)
qed

lemma to_double_Finite:
  assumes "to_double x = Finite r"
  shows "r = round_to_grid x"
  using assms by (simp add: to_double_def Let_def split: if_splits)

lemma fmul_Finite:
  assumes "fmul d e = Finite z"
  shows "\<exists>a b. d = Finite a \<and> e = Finite b \<and> z = round_to_grid (a * b)"
proof (cases d)
  case (Finite a)
  show ?thesis
  proof (cases e)
    case (Finite b)
    with \<open>d = Finite a\<close> assms show ?thesis by (auto dest: to_double_Finite)
  qed (use assms Finite in \<open>auto simp: inf_of_sign_def split: if_splits\<close>)
qed (use assms in \<open>cases e; auto simp: inf_of_sign_def split: if_splits\<close>)+

subsection \<open>The lifetime bucketizer\<close>

lemma to_double_of_nat:
  assumes "n \<le> 2 ^ 53"
  shows "to_double (real n) = Finite (real n)"
proof -
  have "\<bar>int n\<bar> \<le> 2 ^ 53" using assms by (simp add: le_nat_iff nat_le_iff)
  from is_double_of_int [OF this] show ?thesis by (simp add: to_double_exact)
qed

lemma double_of_size_small:
  assumes "unat w \<le> 2 ^ 53"
  shows "double_of_size w = Finite (real (unat w))"
  unfolding double_of_size_def using assms by (rule to_double_of_nat)

lemma double_of_size_cutoffs:
  "double_of_size 10 = Finite 10" "double_of_size 100 = Finite 100"
  "double_of_size 1000 = Finite 1000" "double_of_size 10000 = Finite 10000"
  "double_of_size 100000 = Finite 100000" "double_of_size 1000000 = Finite 1000000"
  by (simp_all add: double_of_size_small)

lemma bucket_loop_from_10:
  "bucket_loop d 10 =
     Some (if flt d (Finite 10) then Inr 1
           else if flt d (Finite 100) then Inr 10
           else if flt d (Finite 1000) then Inr 100
           else if flt d (Finite 10000) then Inr 1000
           else if flt d (Finite 100000) then Inr 10000
           else if flt d (Finite 1000000) then Inr 100000
           else round_down_to_millisecond d)"
  by (simp add: bucket_loop.simps [of d 10] bucket_loop.simps [of d 100]
      bucket_loop.simps [of d 1000] bucket_loop.simps [of d 10000]
      bucket_loop.simps [of d 100000] bucket_loop.simps [of d 1000000]
      bucket_loop.simps [of d 10000000] double_of_size_cutoffs)

lemma bucket_below_million:
  assumes "x < 1000000"
  shows "LifetimeToBucketedLifetimeNanoseconds (Finite x) = Inr (of_nat (bucket_of x))"
  using assms
  by (simp add: LifetimeToBucketedLifetimeNanoseconds_def bucket_loop_from_10 fle_def bucket_of_def)

text \<open>
  The loop of the bucketizer always returns: from the cutoff 10 it runs at most six times.
\<close>

lemma bucket_loop_returns: "bucket_loop d 10 \<noteq> None"
  by (simp only: bucket_loop_from_10) simp

lemma bucketizer_returns:
  "LifetimeToBucketedLifetimeNanoseconds d \<noteq> Inl NonTermination"
proof -
  have r: "round_down_to_millisecond d \<noteq> Inl NonTermination"
    by (cases d) (auto simp: round_down_to_millisecond_def uintptr_of_double_def Let_def and_then_def
        split: if_splits sum.splits double.splits)
  show ?thesis
    using r by (simp add: LifetimeToBucketedLifetimeNanoseconds_def bucket_loop_from_10)
qed

lemma is_double_numeral:
  assumes "(numeral n :: int) \<le> 2 ^ 53"
  shows "is_double (numeral n)"
proof -
  have "is_double (of_int (numeral n))" by (rule is_double_of_int) (use assms in simp)
  then show ?thesis by simp
qed

lemma round_down_exact:
  assumes dbl: "is_double x" and lo: "1000000 \<le> x" and hi: "x < 2 ^ 40 * 1000000"
  shows "round_down_to_millisecond (Finite x) = Inr (of_nat (nat \<lfloor>x / 1000000\<rfloor> * 1000000))"
proof -
  define r where "r = round_to_grid (x / 1000000)"
  define n where "n = \<lfloor>x / 1000000\<rfloor>"
  have fl: "\<lfloor>r\<rfloor> = n" unfolding r_def n_def by (rule floor_div_million [OF dbl lo hi])
  have n1: "1 \<le> n" using lo by (simp add: n_def le_floor_iff)
  have nb: "n < 2 ^ 40" using hi by (simp add: n_def floor_less_iff)
  have rn: "of_int n \<le> r" and rn1: "r < of_int n + 1" using fl by linarith+
  have r0: "0 \<le> r" using rn n1 by linarith
  have "real_of_int n < 2 ^ 40" using nb by simp
  then have "r < 2 ^ 40 + 1" using rn1 by linarith
  moreover have "(2::real) ^ 40 + 1 < 2 ^ 64" by simp
  ultimately have r64: "r < 2 ^ 64" by linarith
  then have rmax: "r \<le> DBL_MAX" using DBL_MAX_ge by linarith
  have "(0::real) \<le> 2 ^ 64" by simp
  then have "0 \<le> DBL_MAX" using DBL_MAX_ge by linarith
  then have td: "to_double (x / 1000000) = Finite r"
    using rmax r0 by (simp add: to_double_def Let_def r_def [symmetric])
  have "uintptr_of_double (Finite r) = Inr (word_of_int n)"
    using r0 r64 fl by (simp add: uintptr_of_double_def)
  then have "round_down_to_millisecond (Finite x) = Inr (word_of_int n * 1000000)"
    by (simp add: round_down_to_millisecond_def td)
  moreover have "(word_of_int n :: 64 word) = of_nat (nat n)" using n1 by simp
  ultimately show ?thesis by (simp add: n_def)
qed

lemma bucket_above_million:
  assumes "is_double x" and "1000000 \<le> x" and "x < 2 ^ 40 * 1000000"
  shows "LifetimeToBucketedLifetimeNanoseconds (Finite x) = Inr (of_nat (bucket_of x))"
  using assms round_down_exact [OF assms]
  by (simp add: LifetimeToBucketedLifetimeNanoseconds_def bucket_of_def)

lemma bucket_closed_form:
  assumes "is_double x" and "x < 2 ^ 40 * 1000000"
  shows "LifetimeToBucketedLifetimeNanoseconds (Finite x) = Inr (of_nat (bucket_of x))"
  using assms bucket_below_million bucket_above_million by (cases "x < 1000000") simp_all

lemma bucket_of_le:
  assumes "10 \<le> x"
  shows "real (bucket_of x) \<le> x"
proof (cases "x < 1000000")
  case True
  then show ?thesis using assms by (simp add: bucket_of_def)
next
  case False
  then have "0 \<le> \<lfloor>x / 1000000\<rfloor>" by simp
  then have "real (nat \<lfloor>x / 1000000\<rfloor>) = of_int \<lfloor>x / 1000000\<rfloor>" by simp
  moreover have "real_of_int \<lfloor>x / 1000000\<rfloor> \<le> x / 1000000" by (rule of_int_floor_le)
  ultimately have "real (nat \<lfloor>x / 1000000\<rfloor>) * 1000000 \<le> x" by linarith
  then show ?thesis using False by (simp add: bucket_of_def)
qed

lemma bucket_of_bound:
  assumes "x < 2 ^ 40 * 1000000"
  shows "bucket_of x < 2 ^ 64"
proof (cases "x < 1000000")
  case True
  then show ?thesis by (simp add: bucket_of_def)
next
  case False
  then have "real (bucket_of x) \<le> x" by (intro bucket_of_le) simp
  also have "\<dots> < 2 ^ 64" using assms by simp
  finally show ?thesis by (metis of_nat_less_numeral_power_cancel_iff)
qed

lemma bucket_of_values:
  "bucket_of x \<in> {1, 10, 100, 1000, 10000, 100000} \<or> (\<exists>k. bucket_of x = k * 1000000)"
  by (simp add: bucket_of_def)

lemma bucket_of_mono:
  assumes "x \<le> y"
  shows "bucket_of x \<le> bucket_of y"
proof (cases "y < 1000000")
  case True
  then show ?thesis using assms by (simp add: bucket_of_def)
next
  case False
  then have y1: "1 \<le> \<lfloor>y / 1000000\<rfloor>" by (simp add: le_floor_iff)
  show ?thesis
  proof (cases "x < 1000000")
    case True
    have "1 \<le> nat \<lfloor>y / 1000000\<rfloor>" using y1 by linarith
    then have "1000000 \<le> nat \<lfloor>y / 1000000\<rfloor> * 1000000" by simp
    moreover have "bucket_of x \<le> 100000" using True by (simp add: bucket_of_def)
    ultimately show ?thesis using False by (simp add: bucket_of_def)
  next
    case xf: False
    have "\<lfloor>x / 1000000\<rfloor> \<le> \<lfloor>y / 1000000\<rfloor>" using assms by (intro floor_mono) simp
    then have "nat \<lfloor>x / 1000000\<rfloor> \<le> nat \<lfloor>y / 1000000\<rfloor>" by simp
    then show ?thesis using False xf by (simp add: bucket_of_def)
  qed
qed

lemma unat_bucket_of:
  assumes "x < 2 ^ 40 * 1000000"
  shows "unat (of_nat (bucket_of x) :: 64 word) = bucket_of x"
  using bucket_of_bound [OF assms] by (simp add: unat_of_nat)

lemma smallest_cutoff_eq:
  assumes "c \<in> cutoffs" and "x < real c" and "\<And>c'. c' \<in> cutoffs \<Longrightarrow> x < real c' \<Longrightarrow> c \<le> c'"
  shows "smallest_cutoff x = c"
  unfolding smallest_cutoff_def
proof (rule Min_eqI)
  show "finite {c \<in> cutoffs. x < real c}" by (simp add: cutoffs_def)
  show "c \<in> {c \<in> cutoffs. x < real c}" using assms(1,2) by simp
  show "\<And>y. y \<in> {c \<in> cutoffs. x < real c} \<Longrightarrow> c \<le> y" using assms(3) by simp
qed

lemma largest_cutoff_eq:
  assumes "x < 1000000"
  shows "largest_cutoff x = 1000000"
  unfolding largest_cutoff_def
proof (rule Max_eqI)
  show "finite {c \<in> cutoffs. x < real c}" by (simp add: cutoffs_def)
  show "1000000 \<in> {c \<in> cutoffs. x < real c}" using assms by (simp add: cutoffs_def)
  show "\<And>y. y \<in> {c \<in> cutoffs. x < real c} \<Longrightarrow> y \<le> 1000000" by (auto simp: cutoffs_def)
qed

lemma smallest_cutoff_bucket:
  assumes "x < 1000000"
  shows "smallest_cutoff x div 10 = bucket_of x"
proof -
  consider "x < 10" | "10 \<le> x" "x < 100" | "100 \<le> x" "x < 1000" | "1000 \<le> x" "x < 10000"
    | "10000 \<le> x" "x < 100000" | "100000 \<le> x" "x < 1000000"
    using assms by linarith
  then show ?thesis
  proof cases
    case 1
    have "smallest_cutoff x = 10"
      by (rule smallest_cutoff_eq) (use 1 in \<open>auto simp: cutoffs_def\<close>)
    then show ?thesis using 1 by (simp add: bucket_of_def)
  next
    case 2
    have "smallest_cutoff x = 100"
      by (rule smallest_cutoff_eq) (use 2 in \<open>auto simp: cutoffs_def\<close>)
    then show ?thesis using 2 by (simp add: bucket_of_def)
  next
    case 3
    have "smallest_cutoff x = 1000"
      by (rule smallest_cutoff_eq) (use 3 in \<open>auto simp: cutoffs_def\<close>)
    then show ?thesis using 3 by (simp add: bucket_of_def)
  next
    case 4
    have "smallest_cutoff x = 10000"
      by (rule smallest_cutoff_eq) (use 4 in \<open>auto simp: cutoffs_def\<close>)
    then show ?thesis using 4 by (simp add: bucket_of_def)
  next
    case 5
    have "smallest_cutoff x = 100000"
      by (rule smallest_cutoff_eq) (use 5 in \<open>auto simp: cutoffs_def\<close>)
    then show ?thesis using 5 by (simp add: bucket_of_def)
  next
    case 6
    have "smallest_cutoff x = 1000000"
      by (rule smallest_cutoff_eq) (use 6 in \<open>auto simp: cutoffs_def\<close>)
    then show ?thesis using 6 by (simp add: bucket_of_def)
  qed
qed

lemma bucket_at_most_one:
  assumes "fle d (Finite 1)"
  shows "LifetimeToBucketedLifetimeNanoseconds d = Inr 1"
  using assms by (cases d) (auto simp: LifetimeToBucketedLifetimeNanoseconds_def fle_def)

text \<open>
  C4, as the code has it: a lifetime of at most 1 ns (a negative one, or minus infinity,
  included) is mapped to 1; a lifetime \<open>x\<close> with \<open>1 < x < 10^6\<close> to \<open>cutoff / 10\<close> for the
  smallest cutoff in \<open>{10, 100, 1000, 10000, 100000, 1000000}\<close> with \<open>x < cutoff\<close>; and a
  double \<open>x\<close> with \<open>10^6 \<le> x < 2^40 * 10^6\<close> to \<open>floor (x / 10^6) * 10^6\<close>.
\<close>

theorem bucketizer_cases:
  "(fle d (Finite 1) \<longrightarrow> LifetimeToBucketedLifetimeNanoseconds d = Inr 1)
   \<and> (1 < x \<and> x < 1000000 \<longrightarrow>
        LifetimeToBucketedLifetimeNanoseconds (Finite x) =
          Inr (of_nat (smallest_cutoff x div 10)))
   \<and> (is_double x \<and> 1000000 \<le> x \<and> x < 2 ^ 40 * 1000000 \<longrightarrow>
        (\<exists>w. LifetimeToBucketedLifetimeNanoseconds (Finite x) = Inr w \<and>
             int (unat w) = \<lfloor>x / 1000000\<rfloor> * 1000000))"
proof (intro conjI impI)
  assume "fle d (Finite 1)"
  then show "LifetimeToBucketedLifetimeNanoseconds d = Inr 1" by (rule bucket_at_most_one)
next
  assume "1 < x \<and> x < 1000000"
  then show "LifetimeToBucketedLifetimeNanoseconds (Finite x) =
      Inr (of_nat (smallest_cutoff x div 10))"
    by (simp add: bucket_below_million smallest_cutoff_bucket)
next
  assume a: "is_double x \<and> 1000000 \<le> x \<and> x < 2 ^ 40 * 1000000"
  then have "LifetimeToBucketedLifetimeNanoseconds (Finite x) = Inr (of_nat (bucket_of x))"
    by (intro bucket_above_million) simp_all
  moreover have u: "unat (of_nat (bucket_of x) :: 64 word) = bucket_of x"
    using a by (intro unat_bucket_of) simp
  have "0 \<le> \<lfloor>x / 1000000\<rfloor>" using a by simp
  then have i: "int (bucket_of x) = \<lfloor>x / 1000000\<rfloor> * 1000000"
    using a by (simp add: bucket_of_def)
  have "int (unat (of_nat (bucket_of x) :: 64 word)) = \<lfloor>x / 1000000\<rfloor> * 1000000"
    by (simp only: u i)
  ultimately show "\<exists>w. LifetimeToBucketedLifetimeNanoseconds (Finite x) = Inr w \<and>
             int (unat w) = \<lfloor>x / 1000000\<rfloor> * 1000000"
    by blast
qed

text \<open>
  C5, for doubles \<open>x \<le> y\<close> below \<open>2^40 * 10^6\<close> ns: the bucket of \<open>x\<close> is at most \<open>x\<close> when
  \<open>10 \<le> x\<close>; it is one of 1, 10, 100, 1000, 10000, 100000 or a multiple of a million; and
  it is at most the bucket of \<open>y\<close>.
\<close>

theorem bucketizer_law:
  assumes "is_double x" and "is_double y" and "x \<le> y" and "y < 2 ^ 40 * 1000000"
  shows "\<exists>bx by. LifetimeToBucketedLifetimeNanoseconds (Finite x) = Inr bx
           \<and> LifetimeToBucketedLifetimeNanoseconds (Finite y) = Inr by
           \<and> (10 \<le> x \<longrightarrow> real (unat bx) \<le> x)
           \<and> (unat bx \<in> {1, 10, 100, 1000, 10000, 100000} \<or> (\<exists>k. unat bx = k * 1000000))
           \<and> unat bx \<le> unat by"
proof -
  have xb: "x < 2 ^ 40 * 1000000" using assms(3,4) by linarith
  have bx: "LifetimeToBucketedLifetimeNanoseconds (Finite x) = Inr (of_nat (bucket_of x))"
    by (rule bucket_closed_form [OF assms(1) xb])
  have "by": "LifetimeToBucketedLifetimeNanoseconds (Finite y) = Inr (of_nat (bucket_of y))"
    by (rule bucket_closed_form [OF assms(2,4)])
  have ux: "unat (of_nat (bucket_of x) :: 64 word) = bucket_of x" by (rule unat_bucket_of [OF xb])
  have uy: "unat (of_nat (bucket_of y) :: 64 word) = bucket_of y"
    by (rule unat_bucket_of [OF assms(4)])
  have 1: "10 \<le> x \<longrightarrow> real (unat (of_nat (bucket_of x) :: 64 word)) \<le> x"
    unfolding ux using bucket_of_le by blast
  have 2: "unat (of_nat (bucket_of x) :: 64 word) \<in> {1, 10, 100, 1000, 10000, 100000} \<or>
        (\<exists>k. unat (of_nat (bucket_of x) :: 64 word) = k * 1000000)"
    unfolding ux by (rule bucket_of_values)
  have 3: "unat (of_nat (bucket_of x) :: 64 word) \<le> unat (of_nat (bucket_of y) :: 64 word)"
    unfolding ux uy by (rule bucket_of_mono [OF assms(3)])
  from bx "by" 1 2 3 show ?thesis by blast
qed

lemma round_down_eval:
  fixes x r :: real
  assumes g: "2 powi g \<le> \<bar>x / 1000000\<bar>" "\<bar>x / 1000000\<bar> < 2 powi (g + 1)" "- 1022 \<le> g"
    and K: "\<bar>x / 1000000 / 2 powi (g - 52) - of_int K\<bar> < 1 / 2"
    and r: "r = of_int K * 2 powi (g - 52)" "0 \<le> r" "r < 2 ^ 64"
  shows "round_down_to_millisecond (Finite x) = Inr (word_of_int \<lfloor>r\<rfloor> * 1000000)"
proof -
  have b: "binade (x / 1000000) = g" by (rule binade_eqI [OF g(1,2)])
  have u: "ulp_exp (x / 1000000) = g - 52" using g(3) by (simp add: ulp_exp_def b)
  have "0 < (2::real) powi g" by (simp add: zero_less_power_int)
  then have ne: "x / 1000000 \<noteq> 0" using g(1) by linarith
  have rr: "round_to_grid (x / 1000000) = r"
    unfolding r(1) by (rule round_to_grid_nearest [OF ne u K])
  have "r \<le> DBL_MAX" using r(3) DBL_MAX_ge by linarith
  moreover have "- DBL_MAX \<le> r" using r(2) DBL_MAX_pos by linarith
  ultimately have "to_double (x / 1000000) = Finite r"
    by (simp add: to_double_def Let_def rr)
  then show ?thesis using r(2,3)
    by (simp add: round_down_to_millisecond_def uintptr_of_double_def)
qed

lemma bucket_above_34_years:
  "LifetimeToBucketedLifetimeNanoseconds (Finite 1099511627776999936) = Inr 1099511627777000000"
proof -
  have "round_down_to_millisecond (Finite 1099511627776999936) =
      Inr (word_of_int \<lfloor>1099511627777 :: real\<rfloor> * 1000000)"
    by (rule round_down_eval [where g = 40 and K = 4503599627374592]) simp_all
  then show ?thesis by (simp add: LifetimeToBucketedLifetimeNanoseconds_def)
qed

lemma bucket_at_2_64:
  "LifetimeToBucketedLifetimeNanoseconds (Finite (2 ^ 64)) = Inr 18446744073709000000"
proof -
  have "round_down_to_millisecond (Finite (2 ^ 64)) =
      Inr (word_of_int \<lfloor>4722366482869645 / 256 :: real\<rfloor> * 1000000)"
    by (rule round_down_eval [where g = 44 and K = 4722366482869645]) simp_all
  moreover have "\<lfloor>4722366482869645 / 256 :: real\<rfloor> = 18446744073709" by linarith
  ultimately show ?thesis by (simp add: LifetimeToBucketedLifetimeNanoseconds_def)
qed

lemma bucket_wraps_around:
  "LifetimeToBucketedLifetimeNanoseconds (Finite (2 ^ 64 + 2 ^ 20)) = Inr 448384"
proof -
  have "round_down_to_millisecond (Finite (2 ^ 64 + 2 ^ 20)) =
      Inr (word_of_int \<lfloor>4722366482869914 / 256 :: real\<rfloor> * 1000000)"
    by (rule round_down_eval [where g = 44 and K = 4722366482869914]) simp_all
  moreover have "\<lfloor>4722366482869914 / 256 :: real\<rfloor> = 18446744073710" by linarith
  ultimately show ?thesis by (simp add: LifetimeToBucketedLifetimeNanoseconds_def)
qed

lemma is_double_big:
  fixes x :: real
  assumes "x = of_int a * 2 powi e" and "2 powi g \<le> \<bar>x\<bar>" and "\<bar>x\<bar> < 2 powi (g + 1)"
    and "g - 52 \<le> e" and "- 1074 \<le> e" and "\<bar>x\<bar> \<le> 2 ^ 1000"
  shows "is_double x"
proof -
  have "binade x = g" by (rule binade_eqI [OF assms(2,3)])
  then have "ulp_exp x \<le> e" using assms(4,5) by (simp add: ulp_exp_def)
  then have "round_to_grid x = x" by (rule round_to_grid_on_grid [OF assms(1)])
  moreover have "(2::real) ^ 1000 \<le> DBL_MAX"
  proof -
    have "(2::real) ^ 1000 \<le> 2 ^ 52 * 2 ^ 971" by (simp flip: power_add)
    also have "\<dots> \<le> (2 ^ 53 - 1) * 2 ^ 971" by (intro mult_right_mono) simp_all
    finally show ?thesis by (simp add: DBL_MAX_def)
  qed
  ultimately show ?thesis using assms(6) by (simp add: is_double_def)
qed

lemma is_double_examples:
  "is_double 1099511627776999936" "is_double (2 ^ 64)" "is_double (2 ^ 64 + 2 ^ 20)"
proof -
  show "is_double 1099511627776999936"
    by (rule is_double_big [where a = 8589934592007812 and e = 7 and g = 59]) simp_all
  show "is_double (2 ^ 64)"
    by (rule is_double_big [where a = 1 and e = 64 and g = 64]) simp_all
  show "is_double (2 ^ 64 + 2 ^ 20)"
    by (rule is_double_big [where a = "2 ^ 44 + 1" and e = 20 and g = 64]) simp_all
qed

text \<open>
  C4 as stated fails.  A lifetime of 5 ns is mapped to 1, while the largest cutoff above it
  is 1000000 and would give 100000.  And the double 1099511627776999936 (about 34.8
  years) is mapped to 1099511627777000000, not to 1099511627776000000: the quotient by
  1000000.0 is rounded up to the next integer before it is truncated.
\<close>

theorem bucketizer_cases_counterexample:
  "LifetimeToBucketedLifetimeNanoseconds (Finite 5) = Inr 1
   \<and> largest_cutoff 5 div 10 = 100000
   \<and> is_double 1099511627776999936
   \<and> LifetimeToBucketedLifetimeNanoseconds (Finite 1099511627776999936) =
        Inr 1099511627777000000
   \<and> \<lfloor>1099511627776999936 / 1000000 :: real\<rfloor> * 1000000 = 1099511627776000000"
proof -
  have "LifetimeToBucketedLifetimeNanoseconds (Finite 5) = Inr 1"
    by (simp add: bucket_below_million bucket_of_def)
  moreover have "largest_cutoff 5 div 10 = 100000" by (simp add: largest_cutoff_eq)
  moreover have "\<lfloor>1099511627776999936 / 1000000 :: real\<rfloor> = 1099511627776" by linarith
  ultimately show ?thesis using is_double_examples(1) bucket_above_34_years by simp
qed

theorem bucketizer_cases_witness:
  "fle (Finite (- 3)) (Finite 1)
   \<and> LifetimeToBucketedLifetimeNanoseconds (Finite (- 3)) = Inr 1
   \<and> (1::real) < 4000 \<and> (4000::real) < 1000000 \<and> smallest_cutoff 4000 = 10000
   \<and> LifetimeToBucketedLifetimeNanoseconds (Finite 4000) = Inr 1000
   \<and> is_double 2500000 \<and> (1000000::real) \<le> 2500000 \<and> (2500000::real) < 2 ^ 40 * 1000000
   \<and> (\<exists>w. LifetimeToBucketedLifetimeNanoseconds (Finite 2500000) = Inr w \<and>
            int (unat w) = 2000000)"
proof -
  have a: "fle (Finite (- 3)) (Finite 1)" by (simp add: fle_def)
  have c: "smallest_cutoff 4000 = 10000"
    by (rule smallest_cutoff_eq) (auto simp: cutoffs_def)
  have d: "is_double 2500000" by (rule is_double_numeral) simp
  have f: "\<lfloor>2500000 / 1000000 :: real\<rfloor> = 2" by linarith
  from bucketizer_cases [of "Finite (- 3)" 4000] a
  have 1: "LifetimeToBucketedLifetimeNanoseconds (Finite (- 3)) = Inr 1" by blast
  from bucketizer_cases [of "Finite (- 3)" 4000]
  have 2: "LifetimeToBucketedLifetimeNanoseconds (Finite 4000) = Inr 1000" by (simp add: c)
  from bucketizer_cases [of "Finite (- 3)" 2500000] d
  have 3: "\<exists>w. LifetimeToBucketedLifetimeNanoseconds (Finite 2500000) = Inr w \<and>
            int (unat w) = 2000000" by (simp add: f)
  from a 1 2 3 c d show ?thesis by simp
qed

text \<open>
  C5 as stated fails.  The bucket of the double 1099511627776999936 is larger than it;
  and between the doubles \<open>2^64\<close> and \<open>2^64 + 2^20\<close> the multiplication by 1000000 wraps
  around in \<^verbatim>\<open>uintptr_t\<close>: the bucket drops from 18446744073709000000 to 448384, which is
  neither a power of ten nor a multiple of a million.
\<close>

theorem bucketizer_law_counterexample:
  "is_double 1099511627776999936 \<and> (10::real) \<le> 1099511627776999936
   \<and> LifetimeToBucketedLifetimeNanoseconds (Finite 1099511627776999936) =
        Inr 1099511627777000000
   \<and> (1099511627776999936::real) < real (unat (1099511627777000000 :: 64 word))
   \<and> is_double (2 ^ 64) \<and> is_double (2 ^ 64 + 2 ^ 20) \<and> (2::real) ^ 64 \<le> 2 ^ 64 + 2 ^ 20
   \<and> LifetimeToBucketedLifetimeNanoseconds (Finite (2 ^ 64)) = Inr 18446744073709000000
   \<and> LifetimeToBucketedLifetimeNanoseconds (Finite (2 ^ 64 + 2 ^ 20)) = Inr 448384
   \<and> unat (448384 :: 64 word) < unat (18446744073709000000 :: 64 word)
   \<and> unat (448384 :: 64 word) \<notin> {1, 10, 100, 1000, 10000, 100000}
   \<and> \<not> 1000000 dvd unat (448384 :: 64 word)"
  using is_double_examples bucket_above_34_years bucket_at_2_64 bucket_wraps_around by simp

theorem bucketizer_law_witness:
  "is_double 47 \<and> is_double 2500000 \<and> (47::real) \<le> 2500000
   \<and> (2500000::real) < 2 ^ 40 * 1000000
   \<and> LifetimeToBucketedLifetimeNanoseconds (Finite 47) = Inr 10
   \<and> LifetimeToBucketedLifetimeNanoseconds (Finite 2500000) = Inr 2000000
   \<and> real (unat (10 :: 64 word)) \<le> 47
   \<and> unat (10 :: 64 word) \<in> {1, 10, 100, 1000, 10000, 100000}
   \<and> unat (10 :: 64 word) \<le> unat (2000000 :: 64 word)"
proof -
  have a: "is_double 47" by (rule is_double_numeral) simp
  have b: "is_double 2500000" by (rule is_double_numeral) simp
  have x: "LifetimeToBucketedLifetimeNanoseconds (Finite 47) = Inr 10"
    by (simp add: bucket_below_million bucket_of_def)
  have "\<lfloor>2500000 / 1000000 :: real\<rfloor> = 2" by linarith
  then have y: "LifetimeToBucketedLifetimeNanoseconds (Finite 2500000) = Inr 2000000"
    using bucket_above_million [OF b] by (simp add: bucket_of_def)
  from bucketizer_law [OF a b] obtain bx "by" where
    "LifetimeToBucketedLifetimeNanoseconds (Finite 47) = Inr bx"
    "LifetimeToBucketedLifetimeNanoseconds (Finite 2500000) = Inr by"
    "10 \<le> (47::real) \<longrightarrow> real (unat bx) \<le> 47"
    "unat bx \<in> {1, 10, 100, 1000, 10000, 100000} \<or> (\<exists>k. unat bx = k * 1000000)"
    "unat bx \<le> unat by" by auto
  moreover from this x y have "bx = 10" "by = 2000000" by simp_all
  ultimately show ?thesis using a b x y by simp
qed

subsection \<open>The matching-bucket index\<close>

lemma kAllCases_indices:
  "map (\<lambda>c. ComputeIndex (fst c) (snd c)) kAllCases = [2, 5, 8, 11, 0, 3, 6, 9, 1, 4, 7, 10]"
  by (simp add: kAllCases_def ComputeIndex_def CpuThreadMatchingStatus_def RpcMatchingStatus_def
      ComputeValue_def)

text \<open>
  C6, as the code has it: the index is \<open>(cpu_matched << 1 | thread_matched) * 3 + rpc_status\<close>,
  where \<open>rpc_status\<close> is 2 when the RPC id is unknown (zero) on either side, 0 when both
  ids are known and different, and 1 when both are known and equal; the index lies in
  \<open>[0, 12)\<close>; and the index \<^verbatim>\<open>AddTrace\<close> computes always carries the status of unknown ids,
  which is 2.
\<close>

theorem ComputeIndex_encoding:
  "ComputeIndex (CpuThreadMatchingStatus c t) (RpcMatchingStatus a d) =
     (push_bit 1 (of_bool c) OR of_bool t) * 3 +
     (if a = 0 \<or> d = 0 then 2 else if a = d then 1 else 0)
   \<and> 0 \<le> ComputeIndex (CpuThreadMatchingStatus c t) (RpcMatchingStatus a d)
   \<and> ComputeIndex (CpuThreadMatchingStatus c t) (RpcMatchingStatus a d) < 12
   \<and> AddTrace_index alloc_trace dealloc_trace =
       (push_bit 1 (of_bool (cpu_id alloc_trace = cpu_id dealloc_trace)) OR
        of_bool (thread_id alloc_trace = thread_id dealloc_trace)) * 3 + 2"
  by (cases c; cases t)
     (simp_all add: ComputeIndex_def CpuThreadMatchingStatus_def RpcMatchingStatus_def
        ComputeValue_def AddTrace_index_def)

text \<open>
  C6 as stated fails: the status of two unknown ids is 2, not 0; of two different ids 0,
  not 1; of two equal ids 1, not 2.
\<close>

theorem rpc_status_encoding_counterexample:
  "rpc_value (RpcMatchingStatus 0 0) = 2 \<and> claimed_rpc_status 0 0 = 0
   \<and> rpc_value (RpcMatchingStatus 1 2) = 0 \<and> claimed_rpc_status 1 2 = 1
   \<and> rpc_value (RpcMatchingStatus 1 1) = 1 \<and> claimed_rpc_status 1 1 = 2"
  by (simp add: RpcMatchingStatus_def ComputeValue_def claimed_rpc_status_def)

subsection \<open>Reporting allocations and deallocations\<close>

text \<open>
  C7 at a trace that reports 65 frames: \<^verbatim>\<open>ReportMalloc\<close> copies 64 instruction pointers
  and stores the depth 65.
\<close>

theorem ReportMalloc_stores_untruncated_depth:
  "map_option depth
     (allocs (ReportMalloc example_env
                (example_trace\<lparr>st_depth := 65, st_stack := replicate 65 4096\<rparr>)
                new_profiler) 7) = Some 65
   \<and> map_option stack
     (allocs (ReportMalloc example_env
                (example_trace\<lparr>st_depth := 65, st_stack := replicate 65 4096\<rparr>)
                new_profiler) 7) = Some (replicate 64 4096)"
  by (simp add: ReportMalloc_def new_profiler_def example_trace_def Let_def copy_frames_def
      kMaxStackDepth_def)

text \<open>
  C9: \<^verbatim>\<open>ReportFree\<close> of a handle that has no entry in the in-flight map returns the
  profiler unchanged: the same in-flight map, the same aggregation table, and so the same
  samples at the next \<^verbatim>\<open>Iterate\<close>.
\<close>

theorem ReportFree_absent_handle:
  assumes "allocs p handle = None"
  shows "ReportFree env handle p = p
         \<and> allocs (ReportFree env handle p) = allocs p
         \<and> reports (ReportFree env handle p) = reports p
         \<and> Iterate (reports (ReportFree env handle p)) = Iterate (reports p)"
  using assms by (simp add: ReportFree_def)

theorem ReportFree_absent_handle_witness:
  "allocs new_profiler 99 = None \<and> ReportFree example_env 99 new_profiler = new_profiler
   \<and> Iterate (reports (ReportFree example_env 99 new_profiler)) = Inr []"
proof -
  have h: "allocs new_profiler 99 = None" by (simp add: new_profiler_def)
  from ReportFree_absent_handle [OF h, of example_env] h show ?thesis
    by (simp add: new_profiler_def Iterate_def)
qed

lemma update_entry_keys:
  "fst ` set (update_entry key f table) \<subseteq> insert key (fst ` set table)"
proof (induction table)
  case Nil
  show ?case by simp
next
  case (Cons kv table)
  obtain k v where kv: "kv = (k, v)" by (cases kv)
  show ?case
  proof (cases "key_eq k key")
    case True
    then show ?thesis by (simp add: kv) blast
  next
    case False
    then show ?thesis using Cons.IH by (simp add: kv) blast
  qed
qed

lemma AddTrace_keys:
  "fst ` set (AddTrace a d table) \<subseteq> insert \<lparr>alloc = a, dealloc = d\<rparr> (fst ` set table)"
  unfolding AddTrace_def by (rule update_entry_keys)

lemma ReportFree_passes_copied_sizes:
  assumes "allocs p handle = Some sample"
  shows "\<exists>deallocation.
           reports (ReportFree env handle p) = AddTrace sample deallocation (reports p) \<and>
           sizes_agree \<lparr>alloc = sample, dealloc = deallocation\<rparr>"
  using assms
  by (intro exI [where x = "deallocation_record env sample"])
     (simp add: ReportFree_def Let_def sizes_agree_def deallocation_record_def)

lemma ReportFree_sizes_agree:
  assumes "\<forall>k \<in> fst ` set (reports p). sizes_agree k"
  shows "\<forall>k \<in> fst ` set (reports (ReportFree env handle p)). sizes_agree k"
proof (cases "allocs p handle")
  case None
  then show ?thesis using assms by (simp add: ReportFree_def)
next
  case (Some sample)
  from ReportFree_passes_copied_sizes [OF Some, of env] obtain deallocation where
    r: "reports (ReportFree env handle p) = AddTrace sample deallocation (reports p)" and
    a: "sizes_agree \<lparr>alloc = sample, dealloc = deallocation\<rparr>" by blast
  show ?thesis
  proof
    fix k
    assume "k \<in> fst ` set (reports (ReportFree env handle p))"
    then have "k \<in> fst ` set (AddTrace sample deallocation (reports p))" by (simp only: r)
    then have "k \<in> insert \<lparr>alloc = sample, dealloc = deallocation\<rparr> (fst ` set (reports p))"
      by (rule subsetD [OF AddTrace_keys])
    then show "sizes_agree k"
    proof (rule insertE)
      assume "k = \<lparr>alloc = sample, dealloc = deallocation\<rparr>"
      then show ?thesis using a by (simp only:)
    next
      assume "k \<in> fst ` set (reports p)"
      then show ?thesis using assms by (rule_tac bspec)
    qed
  qed
qed

lemma ReportMalloc_reports: "reports (ReportMalloc env st p) = reports p"
  by (simp add: ReportMalloc_def Let_def)

lemma report_sizes_agree:
  assumes "\<forall>k \<in> fst ` set (reports p). sizes_agree k"
  shows "\<forall>k \<in> fst ` set (reports (report p e)). sizes_agree k"
proof (cases e)
  case (Malloc env st)
  then show ?thesis using assms by (simp add: ReportMalloc_reports)
next
  case (Free env handle)
  then show ?thesis using ReportFree_sizes_agree [OF assms] by simp
qed

lemma foldl_report_sizes_agree:
  assumes "\<forall>k \<in> fst ` set (reports p). sizes_agree k"
  shows "\<forall>k \<in> fst ` set (reports (foldl report p events)). sizes_agree k"
  using assms
proof (induction events arbitrary: p)
  case Nil
  then show ?case by simp
next
  case (Cons e events)
  from Cons.prems have "\<forall>k \<in> fst ` set (reports (report p e)). sizes_agree k"
    by (rule report_sizes_agree)
  then have "\<forall>k\<in>fst ` set (reports (foldl report (report p e) events)). sizes_agree k"
    by (rule Cons.IH)
  then show ?case by simp
qed

text \<open>
  C10: the sizes of the deallocation record that \<^verbatim>\<open>ReportFree\<close> passes to \<^verbatim>\<open>AddTrace\<close> are
  those of the allocation record it found; and in every key of the aggregation table,
  after any run of events from a new profiler, the allocation and the deallocation record
  have the same requested size, requested alignment and allocated size.
\<close>

theorem aggregation_keys_sizes_agree:
  "(allocs p handle = Some sample \<longrightarrow>
      (\<exists>deallocation.
         reports (ReportFree env handle p) = AddTrace sample deallocation (reports p) \<and>
         requested_size deallocation = requested_size sample \<and>
         requested_alignment deallocation = requested_alignment sample \<and>
         allocated_size deallocation = allocated_size sample))
   \<and> (\<forall>(k, v) \<in> set (reports (run events)).
         requested_size (dealloc k) = requested_size (alloc k) \<and>
         requested_alignment (dealloc k) = requested_alignment (alloc k) \<and>
         allocated_size (dealloc k) = allocated_size (alloc k))"
proof
  show "allocs p handle = Some sample \<longrightarrow>
      (\<exists>deallocation.
         reports (ReportFree env handle p) = AddTrace sample deallocation (reports p) \<and>
         requested_size deallocation = requested_size sample \<and>
         requested_alignment deallocation = requested_alignment sample \<and>
         allocated_size deallocation = allocated_size sample)"
    using ReportFree_passes_copied_sizes [of p handle sample env]
    by (auto simp: sizes_agree_def)
next
  have "\<forall>k \<in> fst ` set (reports new_profiler). sizes_agree k"
    by (simp add: new_profiler_def)
  then have "\<forall>k \<in> fst ` set (reports (run events)). sizes_agree k"
    unfolding run_def by (rule foldl_report_sizes_agree)
  then show "\<forall>(k, v) \<in> set (reports (run events)).
         requested_size (dealloc k) = requested_size (alloc k) \<and>
         requested_alignment (dealloc k) = requested_alignment (alloc k) \<and>
         allocated_size (dealloc k) = allocated_size (alloc k)"
    by (force simp: sizes_agree_def)
qed

lemma example_malloc:
  "allocs (run [Malloc example_env example_trace]) 7 = Some example_sample"
  by (simp add: run_def ReportMalloc_def Let_def example_trace_def example_sample_def)

lemma example_sample_sizes:
  "requested_size example_sample = 31" "requested_alignment example_sample = 8"
  "allocated_size example_sample = 32"
  by (simp_all add: ReportMalloc_def Let_def example_trace_def example_sample_def)

lemma example_reports:
  "reports (run [Malloc example_env example_trace, Free example_env 7]) =
     AddTrace example_sample (deallocation_record example_env example_sample) []"
  by (simp add: run_def ReportMalloc_def ReportFree_def Let_def example_trace_def
      new_profiler_def example_sample_def)

theorem aggregation_keys_sizes_agree_witness:
  "allocs (run [Malloc example_env example_trace]) 7 = Some example_sample
   \<and> (\<exists>deallocation.
        reports (ReportFree example_env 7 (run [Malloc example_env example_trace])) =
          AddTrace example_sample deallocation (reports (run [Malloc example_env example_trace])) \<and>
        requested_size deallocation = requested_size example_sample \<and>
        requested_alignment deallocation = requested_alignment example_sample \<and>
        allocated_size deallocation = allocated_size example_sample)
   \<and> (\<exists>k v. reports (run [Malloc example_env example_trace, Free example_env 7]) = [(k, v)] \<and>
         alloc k = example_sample \<and>
         requested_size (alloc k) = 31 \<and> requested_size (dealloc k) = 31 \<and>
         requested_alignment (alloc k) = 8 \<and> requested_alignment (dealloc k) = 8 \<and>
         allocated_size (alloc k) = 32 \<and> allocated_size (dealloc k) = 32)"
proof -
  note inst = aggregation_keys_sizes_agree [of "run [Malloc example_env example_trace]" 7
      example_sample example_env "[Malloc example_env example_trace, Free example_env 7]"]
  have r: "reports (run [Malloc example_env example_trace, Free example_env 7]) =
      [(\<lparr>alloc = example_sample, dealloc = deallocation_record example_env example_sample\<rparr>,
        update_slot (nat (AddTrace_index example_sample
                            (deallocation_record example_env example_sample)))
          (life_time_ns example_sample (deallocation_record example_env example_sample)) Value)]"
    by (simp add: example_reports AddTrace_def)
  from inst example_malloc have 1: "\<exists>deallocation.
        reports (ReportFree example_env 7 (run [Malloc example_env example_trace])) =
          AddTrace example_sample deallocation (reports (run [Malloc example_env example_trace])) \<and>
        requested_size deallocation = requested_size example_sample \<and>
        requested_alignment deallocation = requested_alignment example_sample \<and>
        allocated_size deallocation = allocated_size example_sample" by blast
  from inst have 2:
    "requested_size (deallocation_record example_env example_sample) = requested_size example_sample \<and>
     requested_alignment (deallocation_record example_env example_sample) =
       requested_alignment example_sample \<and>
     allocated_size (deallocation_record example_env example_sample) = allocated_size example_sample"
    unfolding r by simp
  have 3: "\<exists>k v. reports (run [Malloc example_env example_trace, Free example_env 7]) = [(k, v)] \<and>
         alloc k = example_sample \<and>
         requested_size (alloc k) = 31 \<and> requested_size (dealloc k) = 31 \<and>
         requested_alignment (alloc k) = 8 \<and> requested_alignment (dealloc k) = 8 \<and>
         allocated_size (alloc k) = 32 \<and> allocated_size (dealloc k) = 32"
    unfolding r
    apply (rule exI, rule exI, rule conjI, rule refl)
    using 2 example_sample_sizes apply simp
    done
  from example_malloc 1 3 show ?thesis by (intro conjI)
qed

subsection \<open>Lifetime statistics of the aggregation table\<close>

lemma record_eq_sym: "record_eq a b \<Longrightarrow> record_eq b a"
  by (auto simp: record_eq_def split: if_splits)

lemma record_eq_trans: "record_eq a b \<Longrightarrow> record_eq b c \<Longrightarrow> record_eq a c"
  by (auto simp: record_eq_def split: if_splits)

lemma key_eq_sym: "key_eq a b \<Longrightarrow> key_eq b a"
  by (simp add: key_eq_def record_eq_sym)

lemma key_eq_trans: "key_eq a b \<Longrightarrow> key_eq b c \<Longrightarrow> key_eq a c"
  unfolding key_eq_def using record_eq_trans by blast

lemma update_entry_absent:
  assumes "\<forall>kv \<in> set table. \<not> key_eq (fst kv) key"
  shows "update_entry key f table = table @ [(key, f Value)]"
  using assms by (induction table) auto

lemma update_entry_last:
  assumes "\<forall>kv \<in> set table. \<not> key_eq (fst kv) key" and "key_eq k0 key"
  shows "update_entry key f (table @ [(k0, v)]) = table @ [(k0, f v)]"
  using assms by (induction table) auto

lemma find_entry_last:
  assumes "\<forall>kv \<in> set table. \<not> key_eq (fst kv) key" and "key_eq k0 key"
  shows "find_entry key (table @ [(k0, v)]) = Some (k0, v)"
  using assms unfolding find_entry_def by (induction table) auto

lemma to_double_0 [simp]: "to_double 0 = Finite 0"
  using DBL_MAX_pos by (simp add: to_double_def round_to_grid_def)

lemma is_double_0 [simp]: "is_double 0"
  using DBL_MAX_pos by (simp add: is_double_def round_to_grid_def)

lemma is_double_of_nat:
  assumes "n \<le> 2 ^ 53"
  shows "is_double (real n)"
proof -
  have "\<bar>int n\<bar> \<le> 2 ^ 53" using assms by (simp add: le_nat_iff nat_le_iff)
  from is_double_of_int [OF this] show ?thesis by simp
qed

lemma update_slot_first:
  assumes "i < kNumCases" and "is_double L"
  shows "constant_slot (update_slot i (Finite L) Value) i 1 L"
proof -
  have one: "to_double 1 = Finite 1" using to_double_of_nat [of 1] by simp
  have l: "to_double L = Finite L" by (rule to_double_exact [OF assms(2)])
  have "L \<le> DBL_MAX" using assms(2) unfolding is_double_def by linarith
  then have mn: "fmin (Finite DBL_MAX) (Finite L) = Finite L" by (simp add: fmin_def)
  have mx: "fmax (Finite 0) (Finite L) = Finite (max 0 L)" by (simp add: fmax_def max_def)
  show ?thesis using assms(1)
    by (simp add: constant_slot_def update_slot_def Value_def Let_def fsub_def one l mn mx)
qed

lemma update_slot_next:
  assumes "i < kNumCases" and "is_double L" and "constant_slot v i n L" and "n + 1 \<le> 2 ^ 53"
  shows "constant_slot (update_slot i (Finite L) v) i (n + 1) L"
proof -
  have cnt: "to_double (real n + 1) = Finite (real n + 1)"
    using to_double_of_nat [OF assms(4)] by (simp add: add.commute)
  have l: "to_double L = Finite L" by (rule to_double_exact [OF assms(2)])
  have mn: "fmin (Finite L) (Finite L) = Finite L" by (simp add: fmin_def)
  have mx: "fmax (Finite (max 0 L)) (Finite L) = Finite (max 0 L)" by (simp add: fmax_def max_def)
  have len: "i < length (counts v)" "i < length (mean_life_times_ns v)"
    "i < length (variance_life_times_ns v)" "i < length (min_life_times_ns v)"
    "i < length (max_life_times_ns v)"
    using assms(1,3) by (simp_all add: constant_slot_def)
  show ?thesis using assms(3) len
    by (simp add: constant_slot_def update_slot_def Let_def fsub_def cnt l mn mx)
qed

lemma AddTrace_index_range:
  "AddTrace_index a d \<in> {2, 5, 8, 11}"
  by (simp add: AddTrace_index_def ComputeIndex_def CpuThreadMatchingStatus_def
      RpcMatchingStatus_def ComputeValue_def)

lemma AddTrace_index_nat: "nat (AddTrace_index a d) < kNumCases"
  using AddTrace_index_range [of a d] by (auto simp: kNumCases_def)

lemma not_key_eq_transfer:
  assumes "\<forall>kv \<in> set table. \<not> key_eq (fst kv) key" and "key_eq key key'"
  shows "\<forall>kv \<in> set table. \<not> key_eq (fst kv) key'"
proof
  fix kv assume "kv \<in> set table"
  with assms(1) have n: "\<not> key_eq (fst kv) key" by blast
  show "\<not> key_eq (fst kv) key'"
  proof
    assume "key_eq (fst kv) key'"
    then have "key_eq (fst kv) key" using key_eq_sym [OF assms(2)] by (rule key_eq_trans)
    with n show False by simp
  qed
qed

lemma AddTrace_constant_rest:
  assumes fresh: "\<forall>kv \<in> set table. \<not> key_eq (fst kv) key" and k0: "key_eq k0 key"
    and L: "is_double L"
    and slot: "constant_slot v (nat i) n L"
    and len: "n + length pairs \<le> 2 ^ 53"
    and pairs: "\<forall>p \<in> set pairs. key_eq key \<lparr>alloc = fst p, dealloc = snd p\<rparr> \<and>
                  AddTrace_index (fst p) (snd p) = i \<and> life_time_ns (fst p) (snd p) = Finite L"
  shows "\<exists>v'. foldl (\<lambda>t p. AddTrace (fst p) (snd p) t) (table @ [(k0, v)]) pairs =
                 table @ [(k0, v')] \<and> constant_slot v' (nat i) (n + length pairs) L"
  using slot len pairs
proof (induction pairs arbitrary: v n)
  case Nil
  then show ?case by simp
next
  case (Cons p pairs)
  have p: "key_eq key \<lparr>alloc = fst p, dealloc = snd p\<rparr>" "AddTrace_index (fst p) (snd p) = i"
    "life_time_ns (fst p) (snd p) = Finite L" using Cons.prems(3) by simp_all
  have i: "nat i < kNumCases" using AddTrace_index_nat [of "fst p" "snd p"] p(2) by simp
  have f: "\<forall>kv \<in> set table. \<not> key_eq (fst kv) \<lparr>alloc = fst p, dealloc = snd p\<rparr>"
    by (rule not_key_eq_transfer [OF fresh p(1)])
  have m: "key_eq k0 \<lparr>alloc = fst p, dealloc = snd p\<rparr>" by (rule key_eq_trans [OF k0 p(1)])
  have step: "AddTrace (fst p) (snd p) (table @ [(k0, v)]) =
      table @ [(k0, update_slot (nat i) (Finite L) v)]"
    unfolding AddTrace_def p(2,3) by (rule update_entry_last [OF f m])
  have n1: "n + 1 \<le> 2 ^ 53" using Cons.prems(2) by simp
  have s: "constant_slot (update_slot (nat i) (Finite L) v) (nat i) (n + 1) L"
    by (rule update_slot_next [OF i L Cons.prems(1) n1])
  have l: "n + 1 + length pairs \<le> 2 ^ 53" using Cons.prems(2) by simp
  have r: "\<forall>p \<in> set pairs. key_eq key \<lparr>alloc = fst p, dealloc = snd p\<rparr> \<and>
                  AddTrace_index (fst p) (snd p) = i \<and> life_time_ns (fst p) (snd p) = Finite L"
    using Cons.prems(3) by simp
  from Cons.IH [OF s l r] show ?case by (simp add: step)
qed

lemma AddTrace_constant:
  assumes fresh: "\<forall>kv \<in> set table. \<not> key_eq (fst kv) key"
    and L: "is_double L"
    and ne: "pairs \<noteq> []"
    and len: "length pairs \<le> 2 ^ 53"
    and pairs: "\<forall>p \<in> set pairs. key_eq key \<lparr>alloc = fst p, dealloc = snd p\<rparr> \<and>
                  AddTrace_index (fst p) (snd p) = i \<and> life_time_ns (fst p) (snd p) = Finite L"
  shows "\<exists>k v. find_entry key (foldl (\<lambda>t p. AddTrace (fst p) (snd p) t) table pairs) = Some (k, v)
           \<and> constant_slot v (nat i) (length pairs) L"
proof -
  from ne obtain p ps where pp: "pairs = p # ps" by (cases pairs) auto
  have p: "key_eq key \<lparr>alloc = fst p, dealloc = snd p\<rparr>" "AddTrace_index (fst p) (snd p) = i"
    "life_time_ns (fst p) (snd p) = Finite L" using pairs pp by simp_all
  define k0 where "k0 = \<lparr>alloc = fst p, dealloc = snd p\<rparr>"
  have i: "nat i < kNumCases" using AddTrace_index_nat [of "fst p" "snd p"] p(2) by simp
  have f: "\<forall>kv \<in> set table. \<not> key_eq (fst kv) k0"
    unfolding k0_def by (rule not_key_eq_transfer [OF fresh p(1)])
  have step: "AddTrace (fst p) (snd p) table = table @ [(k0, update_slot (nat i) (Finite L) Value)]"
    unfolding AddTrace_def p(2,3) k0_def [symmetric] by (rule update_entry_absent [OF f])
  have s: "constant_slot (update_slot (nat i) (Finite L) Value) (nat i) 1 L"
    by (rule update_slot_first [OF i L])
  have k: "key_eq k0 key" unfolding k0_def by (rule key_eq_sym [OF p(1)])
  have l: "1 + length ps \<le> 2 ^ 53" using len pp by simp
  have r: "\<forall>p \<in> set ps. key_eq key \<lparr>alloc = fst p, dealloc = snd p\<rparr> \<and>
                  AddTrace_index (fst p) (snd p) = i \<and> life_time_ns (fst p) (snd p) = Finite L"
    using pairs pp by simp
  from AddTrace_constant_rest [OF fresh k L s l r] obtain v' where
    v': "foldl (\<lambda>t p. AddTrace (fst p) (snd p) t)
           (table @ [(k0, update_slot (nat i) (Finite L) Value)]) ps = table @ [(k0, v')]"
    "constant_slot v' (nat i) (1 + length ps) L" by blast
  have "find_entry key (foldl (\<lambda>t p. AddTrace (fst p) (snd p) t) table pairs) = Some (k0, v')"
    unfolding pp by (simp add: step v'(1) find_entry_last [OF fresh k])
  moreover have "constant_slot v' (nat i) (length pairs) L" using v'(2) pp by simp
  ultimately show ?thesis by blast
qed

lemma key_eq_refl: "key_eq k k"
  by (simp add: key_eq_def record_eq_def)

lemma is_double_neg_numeral:
  assumes "(numeral n :: int) \<le> 2 ^ 53"
  shows "is_double (- numeral n)"
proof -
  have "is_double (of_int (- numeral n))" by (rule is_double_of_int) (use assms in simp)
  then show ?thesis by simp
qed

lemma example_sample_fields:
  "creation_time example_sample = 1000" "cpu_id example_sample = 0"
  "thread_id example_sample = 100" "depth example_sample = 2"
  by (simp_all add: ReportMalloc_def Let_def example_trace_def example_sample_def example_env_def)

lemma example_deallocation_fields:
  "creation_time example_deallocation = 5000" "cpu_id example_deallocation = 0"
  "thread_id example_deallocation = 100"
  "creation_time skewed_deallocation = 995" "cpu_id skewed_deallocation = 0"
  "thread_id skewed_deallocation = 100"
  by (simp_all add: example_deallocation_def skewed_deallocation_def deallocation_record_def
      Let_def example_env_def)

lemma example_index:
  "AddTrace_index example_sample example_deallocation = 11"
  "AddTrace_index example_sample skewed_deallocation = 11"
  by (simp_all add: AddTrace_index_def example_sample_fields example_deallocation_fields
      ComputeIndex_def CpuThreadMatchingStatus_def RpcMatchingStatus_def ComputeValue_def)

lemma example_life_time:
  "life_time_ns example_sample example_deallocation = Finite 4000"
  "life_time_ns example_sample skewed_deallocation = Finite (- 5)"
proof -
  have "is_double 4000" by (rule is_double_numeral) simp
  then show "life_time_ns example_sample example_deallocation = Finite 4000"
    by (simp add: life_time_ns_def example_sample_fields example_deallocation_fields
        to_double_exact)
  have "is_double (- 5)" by (rule is_double_neg_numeral) simp
  then show "life_time_ns example_sample skewed_deallocation = Finite (- 5)"
    by (simp add: life_time_ns_def example_sample_fields example_deallocation_fields
        to_double_exact)
qed

text \<open>
  C8, for a lifetime that is not negative: when \<open>N\<close> pairs, \<open>2 \<le> N \<le> 2^53\<close>, are added by
  \<^verbatim>\<open>AddTrace\<close> to a table that has no entry for their key, all of them equal to that key,
  in the same matching bucket \<open>i\<close> and with the same lifetime \<open>L \<ge> 0\<close> (a double), then
  the entry of the key has in slot \<open>i\<close> the count \<open>N\<close>, the mean \<open>L\<close>, the minimum \<open>L\<close> and
  the maximum \<open>L\<close>, and the standard deviation \<^verbatim>\<open>Iterate\<close> computes from it is 0.
\<close>

theorem AddTrace_equal_lifetimes:
  assumes "\<forall>kv \<in> set table. \<not> key_eq (fst kv) key"
    and "is_double L" and "0 \<le> L"
    and "2 \<le> length pairs" and "length pairs \<le> 2 ^ 53"
    and "\<forall>p \<in> set pairs. key_eq key \<lparr>alloc = fst p, dealloc = snd p\<rparr> \<and>
           AddTrace_index (fst p) (snd p) = i \<and> life_time_ns (fst p) (snd p) = Finite L"
  shows "\<exists>k v. find_entry key (foldl (\<lambda>t p. AddTrace (fst p) (snd p) t) table pairs) = Some (k, v)
           \<and> counts v ! nat i = Finite (real (length pairs))
           \<and> mean_life_times_ns v ! nat i = Finite L
           \<and> min_life_times_ns v ! nat i = Finite L
           \<and> max_life_times_ns v ! nat i = Finite L
           \<and> fsqrt (fmax (Finite 0)
                 (fdiv (variance_life_times_ns v ! nat i) (counts v ! nat i))) = Finite 0"
proof -
  have ne: "pairs \<noteq> []" using assms(4) by auto
  from AddTrace_constant [OF assms(1,2) ne assms(5,6)] obtain k v where
    f: "find_entry key (foldl (\<lambda>t p. AddTrace (fst p) (snd p) t) table pairs) = Some (k, v)" and
    s: "constant_slot v (nat i) (length pairs) L" by blast
  have c: "counts v ! nat i = Finite (real (length pairs))"
    and m: "mean_life_times_ns v ! nat i = Finite L"
    and va: "variance_life_times_ns v ! nat i = Finite 0"
    and mn: "min_life_times_ns v ! nat i = Finite L"
    and mx: "max_life_times_ns v ! nat i = Finite (max 0 L)"
    using s by (simp_all add: constant_slot_def)
  have mx': "max_life_times_ns v ! nat i = Finite L" using mx assms(3) by (simp add: max_def)
  have "real (length pairs) \<noteq> 0" using ne by simp
  then have "fdiv (variance_life_times_ns v ! nat i) (counts v ! nat i) = Finite 0"
    by (simp add: va c)
  then have sd: "fsqrt (fmax (Finite 0)
       (fdiv (variance_life_times_ns v ! nat i) (counts v ! nat i))) = Finite 0"
    by (simp add: fmax_def)
  from f c m mn mx' sd show ?thesis by blast
qed

theorem AddTrace_equal_lifetimes_witness:
  "is_double 4000 \<and> (0::real) \<le> 4000
   \<and> AddTrace_index example_sample example_deallocation = 11
   \<and> life_time_ns example_sample example_deallocation = Finite 4000
   \<and> (\<exists>k v. find_entry \<lparr>alloc = example_sample, dealloc = example_deallocation\<rparr>
               (foldl (\<lambda>t p. AddTrace (fst p) (snd p) t) []
                  [(example_sample, example_deallocation),
                   (example_sample, example_deallocation),
                   (example_sample, example_deallocation)]) = Some (k, v)
           \<and> counts v ! 11 = Finite 3
           \<and> mean_life_times_ns v ! 11 = Finite 4000
           \<and> min_life_times_ns v ! 11 = Finite 4000
           \<and> max_life_times_ns v ! 11 = Finite 4000
           \<and> fsqrt (fmax (Finite 0)
                 (fdiv (variance_life_times_ns v ! 11) (counts v ! 11))) = Finite 0)"
proof -
  have d: "is_double 4000" by (rule is_double_numeral) simp
  have h: "\<forall>p \<in> set [(example_sample, example_deallocation),
                   (example_sample, example_deallocation),
                   (example_sample, example_deallocation)].
           key_eq \<lparr>alloc = example_sample, dealloc = example_deallocation\<rparr>
             \<lparr>alloc = fst p, dealloc = snd p\<rparr> \<and>
           AddTrace_index (fst p) (snd p) = 11 \<and> life_time_ns (fst p) (snd p) = Finite 4000"
    by (simp add: key_eq_refl example_index example_life_time)
  have e: "\<forall>kv \<in> set ([] :: DeallocationStackTraceTable).
      \<not> key_eq (fst kv) \<lparr>alloc = example_sample, dealloc = example_deallocation\<rparr>" by simp
  from AddTrace_equal_lifetimes [OF e d _ _ _ h]
  have "\<exists>k v. find_entry \<lparr>alloc = example_sample, dealloc = example_deallocation\<rparr>
               (foldl (\<lambda>t p. AddTrace (fst p) (snd p) t) []
                  [(example_sample, example_deallocation),
                   (example_sample, example_deallocation),
                   (example_sample, example_deallocation)]) = Some (k, v)
           \<and> counts v ! 11 = Finite 3
           \<and> mean_life_times_ns v ! 11 = Finite 4000
           \<and> min_life_times_ns v ! 11 = Finite 4000
           \<and> max_life_times_ns v ! 11 = Finite 4000
           \<and> fsqrt (fmax (Finite 0)
                 (fdiv (variance_life_times_ns v ! 11) (counts v ! 11))) = Finite 0"
    by simp
  then show ?thesis using d example_index(1) example_life_time(1) by simp
qed

text \<open>
  C8 as stated fails for a negative lifetime: after two pairs with lifetime -5 ns the
  maximum of the slot is still its initial value 0.
\<close>

theorem AddTrace_negative_lifetime_counterexample:
  "is_double (- 5)
   \<and> AddTrace_index example_sample skewed_deallocation = 11
   \<and> life_time_ns example_sample skewed_deallocation = Finite (- 5)
   \<and> (\<exists>k v. find_entry \<lparr>alloc = example_sample, dealloc = skewed_deallocation\<rparr>
               (foldl (\<lambda>t p. AddTrace (fst p) (snd p) t) []
                  [(example_sample, skewed_deallocation),
                   (example_sample, skewed_deallocation)]) = Some (k, v)
           \<and> counts v ! 11 = Finite 2
           \<and> mean_life_times_ns v ! 11 = Finite (- 5)
           \<and> min_life_times_ns v ! 11 = Finite (- 5)
           \<and> max_life_times_ns v ! 11 = Finite 0)"
proof -
  have d: "is_double (- 5)" by (rule is_double_neg_numeral) simp
  have h: "\<forall>p \<in> set [(example_sample, skewed_deallocation),
                   (example_sample, skewed_deallocation)].
           key_eq \<lparr>alloc = example_sample, dealloc = skewed_deallocation\<rparr>
             \<lparr>alloc = fst p, dealloc = snd p\<rparr> \<and>
           AddTrace_index (fst p) (snd p) = 11 \<and> life_time_ns (fst p) (snd p) = Finite (- 5)"
    by (simp add: key_eq_refl example_index example_life_time)
  have e: "\<forall>kv \<in> set ([] :: DeallocationStackTraceTable).
      \<not> key_eq (fst kv) \<lparr>alloc = example_sample, dealloc = skewed_deallocation\<rparr>" by simp
  from AddTrace_constant [OF e d _ _ h] obtain k v where
    f: "find_entry \<lparr>alloc = example_sample, dealloc = skewed_deallocation\<rparr>
               (foldl (\<lambda>t p. AddTrace (fst p) (snd p) t) []
                  [(example_sample, skewed_deallocation),
                   (example_sample, skewed_deallocation)]) = Some (k, v)" and
    s: "constant_slot v (nat 11) (length [(example_sample, skewed_deallocation),
                   (example_sample, skewed_deallocation)]) (- 5)" by auto
  from s have "counts v ! 11 = Finite 2 \<and> mean_life_times_ns v ! 11 = Finite (- 5)
           \<and> min_life_times_ns v ! 11 = Finite (- 5) \<and> max_life_times_ns v ! 11 = Finite 0"
    by (simp add: constant_slot_def)
  with f have "\<exists>k v. find_entry \<lparr>alloc = example_sample, dealloc = skewed_deallocation\<rparr>
               (foldl (\<lambda>t p. AddTrace (fst p) (snd p) t) []
                  [(example_sample, skewed_deallocation),
                   (example_sample, skewed_deallocation)]) = Some (k, v)
           \<and> counts v ! 11 = Finite 2
           \<and> mean_life_times_ns v ! 11 = Finite (- 5)
           \<and> min_life_times_ns v ! 11 = Finite (- 5)
           \<and> max_life_times_ns v ! 11 = Finite 0" by blast
  then show ?thesis using d example_index(2) example_life_time(2) by (intro conjI)
qed

subsection \<open>The samples of Iterate\<close>

lemma and_then_Inr:
  "and_then r f = Inr y \<longleftrightarrow> (\<exists>x. r = Inr x \<and> f x = Inr y)"
  by (cases r) (simp_all add: and_then_def)

lemma emitted_append:
  "emitted pid (xs @ ys) =
     and_then (emitted pid xs) (\<lambda>a. and_then (emitted (pid + of_nat (length xs)) ys)
       (\<lambda>b. Inr (a @ b)))"
proof (induction xs arbitrary: pid)
  case Nil
  show ?case by (cases "emitted pid ys") (simp_all add: and_then_def)
next
  case (Cons x xs)
  obtain k v c where x: "x = (k, v, c)" by (cases x)
  have p: "pid + 1 + of_nat (length xs) = pid + (1 + of_nat (length xs))" by simp
  show ?case
    by (cases "emit_pair k v pid c"; cases "emitted (pid + 1) xs";
        cases "emitted (pid + (1 + of_nat (length xs))) ys")
       (simp_all add: x Cons.IH and_then_def p split: prod.splits)
qed

lemma iterate_cases_emitted:
  "iterate_cases k v pid cases =
     and_then (emitted pid (map (\<lambda>c. (k, v, c))
         (filter (\<lambda>c. \<not> feq (counts v ! nat (ComputeIndex (fst c) (snd c))) (Finite 0)) cases)))
       (\<lambda>out. Inr (out, pid + of_nat (length
         (filter (\<lambda>c. \<not> feq (counts v ! nat (ComputeIndex (fst c) (snd c))) (Finite 0)) cases))))"
proof (induction cases arbitrary: pid)
  case Nil
  show ?case by (simp add: and_then_def)
next
  case (Cons c cases)
  show ?case
  proof (cases "feq (counts v ! nat (ComputeIndex (fst c) (snd c))) (Finite 0)")
    case True
    then show ?thesis by (simp add: Cons.IH)
  next
    case False
    let ?rest = "filter (\<lambda>c. \<not> feq (counts v ! nat (ComputeIndex (fst c) (snd c))) (Finite 0)) cases"
    have p: "pid + 1 + of_nat (length ?rest) = pid + (1 + of_nat (length ?rest))" by simp
    show ?thesis using False
      by (cases "emit_pair k v pid c"; cases "emitted (pid + 1) (map (\<lambda>c. (k, v, c)) ?rest)")
         (simp_all add: Cons.IH and_then_def p split: prod.splits)
  qed
qed

lemma iterate_table_emitted:
  "iterate_table table pid = emitted pid (populated_slots table)"
proof (induction table arbitrary: pid)
  case Nil
  show ?case by (simp add: populated_slots_def)
next
  case (Cons kv table)
  obtain k v where kv: "kv = (k, v)" by (cases kv)
  let ?here = "map (\<lambda>c. (k, v, c)) (populated_cases v)"
  have ps: "populated_slots (kv # table) = ?here @ populated_slots table"
    by (simp add: populated_slots_def kv)
  have len: "length ?here = length (populated_cases v)" by simp
  show ?case unfolding ps emitted_append len
    by (cases "emitted pid ?here";
        cases "emitted (pid + of_nat (length (populated_cases v))) (populated_slots table)")
       (simp_all add: kv iterate_cases_emitted Cons.IH and_then_def populated_cases_def)
qed

lemma Iterate_emitted: "Iterate table = emitted 1 (populated_slots table)"
  by (simp add: Iterate_def iterate_table_emitted)

lemma emitted_nth:
  assumes "emitted pid slots = Inr samples"
  shows "length samples = 2 * length slots \<and>
         (\<forall>j < length slots.
            emit_pair (fst (slots ! j)) (fst (snd (slots ! j))) (pid + of_nat j) (snd (snd (slots ! j)))
              = Inr (samples ! (2 * j), samples ! (2 * j + 1)))"
  using assms
proof (induction slots arbitrary: pid samples)
  case Nil
  then show ?case by simp
next
  case (Cons x slots)
  obtain k v c where x: "x = (k, v, c)" by (cases x)
  from Cons.prems obtain first second rest where
    e: "emit_pair k v pid c = Inr (first, second)" and
    r: "emitted (pid + 1) slots = Inr rest" and
    s: "samples = first # second # rest"
    by (auto simp: x and_then_Inr)
  from Cons.IH [OF r] have len: "length rest = 2 * length slots" and
    nth: "\<And>j. j < length slots \<Longrightarrow>
            emit_pair (fst (slots ! j)) (fst (snd (slots ! j))) (pid + 1 + of_nat j)
              (snd (snd (slots ! j))) = Inr (rest ! (2 * j), rest ! (2 * j + 1))"
    by simp_all
  show ?case
  proof (intro conjI allI impI)
    show "length samples = 2 * length (x # slots)" by (simp add: s len)
  next
    fix j assume j: "j < length (x # slots)"
    show "emit_pair (fst ((x # slots) ! j)) (fst (snd ((x # slots) ! j))) (pid + of_nat j)
            (snd (snd ((x # slots) ! j))) = Inr (samples ! (2 * j), samples ! (2 * j + 1))"
    proof (cases j)
      case 0
      then show ?thesis by (simp add: x e s)
    next
      case (Suc i)
      then have i: "i < length slots" using j by simp
      have "pid + 1 + of_nat i = pid + of_nat (Suc i)" by simp
      with nth [OF i] show ?thesis by (simp add: Suc s)
    qed
  qed
qed

lemma Iterate_pairs:
  assumes "Iterate table = Inr samples" and "j < length (populated_slots table)"
    and "populated_slots table ! j = (k, v, c)"
  shows "length samples = 2 * length (populated_slots table)"
    and "emit_pair k v (of_nat (j + 1)) c = Inr (samples ! (2 * j), samples ! (2 * j + 1))"
proof -
  from assms(1) have e: "emitted 1 (populated_slots table) = Inr samples"
    by (simp add: Iterate_emitted)
  from emitted_nth [OF e] show "length samples = 2 * length (populated_slots table)" by simp
  from emitted_nth [OF e] assms(2)
  have "emit_pair (fst (populated_slots table ! j)) (fst (snd (populated_slots table ! j)))
          (1 + of_nat j) (snd (snd (populated_slots table ! j)))
        = Inr (samples ! (2 * j), samples ! (2 * j + 1))" by blast
  then show "emit_pair k v (of_nat (j + 1)) c = Inr (samples ! (2 * j), samples ! (2 * j + 1))"
    by (simp add: assms(3) add.commute)
qed

lemma emit_pair_Inr:
  assumes "emit_pair k v pid c = Inr (s1, s2)"
  shows "\<exists>b. byte_total k v c = Inr b \<and> allocated_size (alloc k) \<noteq> 0 \<and>
     s_count s1 = (word_of_int b + allocated_size (alloc k) - 1) div allocated_size (alloc k) \<and>
     s_sum s1 = s_count s1 * allocated_size (alloc k) \<and>
     s_profile_id s1 = pid \<and> s_depth s1 = depth (alloc k) \<and>
     s_stack s1 = copy_frames (nat (depth (alloc k))) (stack (alloc k))
                    (replicate kMaxStackDepth 0) \<and>
     s_requested_size s1 = requested_size (alloc k) \<and>
     s_requested_alignment s1 = requested_alignment (alloc k) \<and>
     s_allocated_size s1 = allocated_size (alloc k) \<and>
     s_allocator_deallocator_cpu_matched s1 = cpu_matched (fst c) \<and>
     s_allocator_deallocator_thread_matched s1 = thread_matched (fst c) \<and>
     s2 = s1\<lparr>s_count := - s_count s1, s_depth := depth (dealloc k),
             s_stack := copy_frames (nat (depth (dealloc k))) (stack (dealloc k)) (s_stack s1)\<rparr>"
proof -
  from assms obtain b where b: "byte_total k v c = Inr b"
    and rest: "(let bytes = (word_of_int b :: 64 word); size = allocated_size (alloc k)
      in if size = 0 then Inl DivideByZero else
      let count = (bytes + size - 1) div size;
          sum = count * size;
          stddev_life_time_ns =
            fsqrt (fmax (Finite 0) (fdiv (variance_life_times_ns v ! nat (ComputeIndex (fst c) (snd c)))
               (counts v ! nat (ComputeIndex (fst c) (snd c)))))
      in and_then (LifetimeToBucketedLifetimeNanoseconds
              (mean_life_times_ns v ! nat (ComputeIndex (fst c) (snd c))))
           (\<lambda>lifetime.
         and_then (LifetimeToBucketedLifetimeNanoseconds stddev_life_time_ns)
           (\<lambda>stddev_lifetime.
         and_then (LifetimeToBucketedLifetimeNanoseconds
              (min_life_times_ns v ! nat (ComputeIndex (fst c) (snd c))))
           (\<lambda>min_lifetime.
         and_then (LifetimeToBucketedLifetimeNanoseconds
              (max_life_times_ns v ! nat (ComputeIndex (fst c) (snd c))))
           (\<lambda>max_lifetime.
      let sample =
            \<lparr>s_sum = sum,
             s_count = 0,
             s_requested_size = requested_size (alloc k),
             s_requested_alignment = requested_alignment (alloc k),
             s_allocated_size = size,
             s_profile_id = pid,
             s_lifetime_ns = lifetime,
             s_stddev_lifetime_ns = stddev_lifetime,
             s_min_lifetime_ns = min_lifetime,
             s_max_lifetime_ns = max_lifetime,
             s_allocator_deallocator_cpu_matched = cpu_matched (fst c),
             s_allocator_deallocator_thread_matched = thread_matched (fst c),
             s_depth = 0,
             s_stack = replicate kMaxStackDepth 0\<rparr>;
          first =
            sample\<lparr>s_count := count,
                   s_depth := depth (alloc k),
                   s_stack := copy_frames (nat (depth (alloc k))) (stack (alloc k))
                                (s_stack sample)\<rparr>;
          second =
            first\<lparr>s_count := - 1 * count,
                  s_depth := depth (dealloc k),
                  s_stack := copy_frames (nat (depth (dealloc k))) (stack (dealloc k))
                               (s_stack first)\<rparr>
      in Inr (first, second)))))) = Inr (s1, s2)"
    unfolding emit_pair_def byte_total_def Let_def and_then_Inr by blast
  from rest have nz: "allocated_size (alloc k) \<noteq> 0" by (auto simp: Let_def split: if_splits)
  from rest nz obtain lifetime stddev_lifetime min_lifetime max_lifetime where
    s1: "s1 = \<lparr>s_sum = (word_of_int b + allocated_size (alloc k) - 1) div allocated_size (alloc k)
                      * allocated_size (alloc k),
             s_count = (word_of_int b + allocated_size (alloc k) - 1) div allocated_size (alloc k),
             s_requested_size = requested_size (alloc k),
             s_requested_alignment = requested_alignment (alloc k),
             s_allocated_size = allocated_size (alloc k),
             s_profile_id = pid,
             s_lifetime_ns = lifetime,
             s_stddev_lifetime_ns = stddev_lifetime,
             s_min_lifetime_ns = min_lifetime,
             s_max_lifetime_ns = max_lifetime,
             s_allocator_deallocator_cpu_matched = cpu_matched (fst c),
             s_allocator_deallocator_thread_matched = thread_matched (fst c),
             s_depth = depth (alloc k),
             s_stack = copy_frames (nat (depth (alloc k))) (stack (alloc k))
                         (replicate kMaxStackDepth 0)\<rparr>" and
    s2: "s2 = s1\<lparr>s_count := - s_count s1, s_depth := depth (dealloc k),
             s_stack := copy_frames (nat (depth (dealloc k))) (stack (dealloc k)) (s_stack s1)\<rparr>"
    by (auto simp: Let_def and_then_Inr)
  show ?thesis using b nz s2 by (intro exI [where x = b]) (simp add: s1)
qed

lemma take_copy_frames:
  assumes "n \<le> length src"
  shows "take n (copy_frames n src dst) = take n src"
  using assms by (simp add: copy_frames_def)

lemma sint_small:
  fixes w :: "64 word"
  assumes "unat w < 2 ^ 63"
  shows "sint w = int (unat w)"
proof -
  have "uint w = int (unat w)" by (rule uint_nat)
  moreover have "int (unat w) < 2 ^ 63"
    using assms by (simp only: of_nat_less_numeral_power_cancel_iff)
  ultimately have u: "uint w < 2 ^ 63" by (simp only:)
  have "sint w = signed_take_bit 63 (uint w)" by (simp add: sint_uint)
  also have "\<dots> = uint w"
  proof (rule signed_take_bit_int_eq_self)
    have "(0::int) \<le> uint w" by simp
    moreover have "- (2 ^ 63) \<le> (0::int)" by simp
    ultimately show "- (2 ^ 63) \<le> uint w" by (rule order_trans [rotated])
    show "uint w < 2 ^ 63" by (rule u)
  qed
  also have "\<dots> = int (unat w)" by (rule uint_nat)
  finally show ?thesis .
qed

lemma ceiling_div_word:
  fixes a :: "64 word"
  assumes "0 \<le> b" and "b < 2 ^ 63" and "a \<noteq> 0" and "unat a \<le> 2 ^ 63"
  shows "unat ((word_of_int b + a - 1) div a) = (nat b + unat a - 1) div unat a"
    and "(nat b + unat a - 1) div unat a < 2 ^ 63"
proof -
  have a1: "1 \<le> unat a" using assms(3) by (simp add: unat_gt_0 Suc_le_eq)
  have nb: "nat b < 2 ^ 63" using assms(1,2) by (simp add: nat_less_iff)
  have sum: "nat b + unat a - 1 < 2 ^ 64" using nb assms(4) a1 by simp
  have wi: "(word_of_int b :: 64 word) = of_nat (nat b)" by (rule word_of_int_nat [OF assms(1)])
  have "of_nat (nat b) + a - 1 = (of_nat (nat b + unat a - 1) :: 64 word)"
    using a1 by (simp add: of_nat_diff)
  then have "unat (word_of_int b + a - 1) = (nat b + unat a - 1) mod 2 ^ 64"
    unfolding wi by (simp only: unat_of_nat) simp
  then have "unat (word_of_int b + a - 1) = nat b + unat a - 1" using sum by simp
  then show "unat ((word_of_int b + a - 1) div a) = (nat b + unat a - 1) div unat a"
    by (simp add: unat_div)
  have "(nat b + unat a - 1) div unat a \<le> nat b"
  proof (cases "nat b = 0")
    case True
    then show ?thesis using a1 by simp
  next
    case False
    have "nat b + unat a - 1 \<le> nat b * unat a"
    proof -
      have "nat b + unat a - 1 = nat b + (unat a - 1)" using a1 by simp
      also have "\<dots> \<le> nat b + nat b * (unat a - 1)"
      proof -
        have "1 \<le> nat b" using False by simp
        then have "1 * (unat a - 1) \<le> nat b * (unat a - 1)" by (rule mult_le_mono1)
        then show ?thesis by simp
      qed
      also have "\<dots> = nat b * unat a" using a1 by (simp add: algebra_simps)
      finally show ?thesis .
    qed
    then have "(nat b + unat a - 1) div unat a \<le> (nat b * unat a) div unat a"
      by (rule div_le_mono)
    then show ?thesis using a1 by simp
  qed
  then show "(nat b + unat a - 1) div unat a < 2 ^ 63" using nb by linarith
qed

lemma ceiling_as_div:
  assumes "1 \<le> a"
  shows "\<lceil>real n / real a\<rceil> = int ((n + a - 1) div a)"
proof -
  define q where "q = (n + a - 1) div a"
  have a0: "0 < a" using assms by simp
  have 1: "q * a \<le> n + a - 1" unfolding q_def by simp
  have "n + a - 1 < (q + 1) * a"
    unfolding q_def using a0 by (metis Suc_eq_plus1 dividend_less_div_times mult.commute
        add.commute mult_Suc)
  then have 2: "n \<le> q * a" using a0 by simp
  have 3: "q * a < n + a" using 1 a0 by linarith
  have up: "real n / real a \<le> real q"
  proof -
    have "real n \<le> real (q * a)" using 2 by (simp only: of_nat_le_iff)
    then show ?thesis using a0 by (simp add: pos_divide_le_eq)
  qed
  have lo: "real q - 1 < real n / real a"
  proof -
    have "real (q * a) < real (n + a)" using 3 by (simp only: of_nat_less_iff)
    then have "(real q - 1) * real a < real n" by (simp add: algebra_simps)
    then show ?thesis using a0 by (simp add: pos_less_divide_eq)
  qed
  have "\<lceil>real n / real a\<rceil> = int q"
    by (rule ceiling_unique) (use up lo in simp_all)
  then show ?thesis by (simp add: q_def)
qed

lemma emitted_count:
  fixes a :: "64 word"
  assumes "0 \<le> b" and "b < 2 ^ 63" and "a \<noteq> 0" and "unat a \<le> 2 ^ 63"
  shows "sint ((word_of_int b + a - 1) div a) = \<lceil>real_of_int b / real (unat a)\<rceil>"
proof -
  have a1: "1 \<le> unat a" using assms(3) by (simp add: unat_gt_0 Suc_le_eq)
  have "sint ((word_of_int b + a - 1) div a) = int (unat ((word_of_int b + a - 1) div a))"
    by (rule sint_small) (use ceiling_div_word [OF assms] in simp)
  also have "\<dots> = int ((nat b + unat a - 1) div unat a)"
    by (simp only: ceiling_div_word(1) [OF assms])
  also have "\<dots> = \<lceil>real (nat b) / real (unat a)\<rceil>"
    by (rule ceiling_as_div [OF a1, symmetric])
  also have "real (nat b) = real_of_int b" using assms(1) by simp
  finally show ?thesis .
qed

lemma lround_range:
  assumes "lround d = Inr b"
  shows "- (2 ^ 63) \<le> b \<and> b < 2 ^ 63"
  using assms by (cases d) (auto simp: lround_def Let_def split: if_splits)

lemma zero_bytes_count:
  fixes a :: "64 word"
  assumes "a \<noteq> 0"
  shows "(word_of_int 0 + a - 1) div a = 0"
proof -
  have "unat (a - 1) = unat a - 1" using assms by (rule unat_minus_one)
  moreover have "0 < unat a" using assms by (simp add: unat_gt_0)
  ultimately have "unat (a - 1) < unat a" by simp
  then have "a - 1 < a" by (simp only: word_less_nat_alt)
  then have "(a - 1) div a = 0" by (rule div_word_less)
  then show ?thesis by simp
qed

lemma sint_uminus:
  fixes w :: "64 word"
  assumes "0 \<le> sint w"
  shows "sint (- w) = - sint w"
proof -
  have "sint w < 2 ^ 63" using sint_lt [of w] by simp
  then have "signed_take_bit 63 (- sint w) = - sint w"
    using assms by (intro signed_take_bit_int_eq_self) simp_all
  then show ?thesis by (simp add: sint_word_ariths)
qed

text \<open>
  C1, with the count positive for a byte total of at least 1: when \<^verbatim>\<open>Iterate\<close> returns,
  it has emitted two samples for each populated slot, in the order of the slots.  Those of
  slot \<open>j\<close> (counted from 0) both have the profile id \<open>j + 1\<close>, so the ids start at 1 and
  grow by one from pair to pair; the first has the depth and the stack of the key's
  allocation record and the count, the second the depth and the stack of the deallocation
  record and the negated count; and they agree on every other field.  For a byte total
  \<open>lround (slot.count * alloc.weight * allocated_size)\<close> of at least 1 and an allocated
  size of at most \<open>2^63\<close> the count of the first sample is positive and the count of the
  second is its negation, a negative number; for a byte total of 0 both counts are 0.
  The depths are those of records whose stack holds that many frames.
\<close>

theorem Iterate_emits_pairs:
  assumes "Iterate table = Inr samples"
    and "j < length (populated_slots table)"
    and "populated_slots table ! j = (k, v, c)"
    and "nat (depth (alloc k)) \<le> length (stack (alloc k))"
    and "nat (depth (dealloc k)) \<le> length (stack (dealloc k))"
    and "byte_total k v c = Inr bytes"
  shows "length samples = 2 * length (populated_slots table)
       \<and> s_profile_id (samples ! (2 * j)) = of_nat (j + 1)
       \<and> s_profile_id (samples ! (2 * j + 1)) = of_nat (j + 1)
       \<and> s_depth (samples ! (2 * j)) = depth (alloc k)
       \<and> take (nat (depth (alloc k))) (s_stack (samples ! (2 * j))) =
           take (nat (depth (alloc k))) (stack (alloc k))
       \<and> s_depth (samples ! (2 * j + 1)) = depth (dealloc k)
       \<and> take (nat (depth (dealloc k))) (s_stack (samples ! (2 * j + 1))) =
           take (nat (depth (dealloc k))) (stack (dealloc k))
       \<and> s_count (samples ! (2 * j + 1)) = - s_count (samples ! (2 * j))
       \<and> samples ! (2 * j + 1) =
           (samples ! (2 * j))\<lparr>s_count := s_count (samples ! (2 * j + 1)),
                                s_depth := s_depth (samples ! (2 * j + 1)),
                                s_stack := s_stack (samples ! (2 * j + 1))\<rparr>
       \<and> (1 \<le> bytes \<and> unat (allocated_size (alloc k)) \<le> 2 ^ 63 \<longrightarrow>
            0 < sint (s_count (samples ! (2 * j))) \<and>
            sint (s_count (samples ! (2 * j + 1))) = - sint (s_count (samples ! (2 * j))) \<and>
            sint (s_count (samples ! (2 * j + 1))) < 0)
       \<and> (bytes = 0 \<longrightarrow>
            s_count (samples ! (2 * j)) = 0 \<and> s_count (samples ! (2 * j + 1)) = 0)"
proof -
  define s1 where "s1 = samples ! (2 * j)"
  define s2 where "s2 = samples ! (2 * j + 1)"
  have len: "length samples = 2 * length (populated_slots table)"
    by (rule Iterate_pairs(1) [OF assms(1,2,3)])
  have "emit_pair k v (of_nat (j + 1)) c = Inr (s1, s2)"
    unfolding s1_def s2_def by (rule Iterate_pairs(2) [OF assms(1,2,3)])
  from emit_pair_Inr [OF this] obtain b where
    b: "byte_total k v c = Inr b" and nz: "allocated_size (alloc k) \<noteq> 0" and
    cnt: "s_count s1 = (word_of_int b + allocated_size (alloc k) - 1) div allocated_size (alloc k)" and
    pid: "s_profile_id s1 = of_nat (j + 1)" and
    d1: "s_depth s1 = depth (alloc k)" and
    st1: "s_stack s1 = copy_frames (nat (depth (alloc k))) (stack (alloc k))
                    (replicate kMaxStackDepth 0)" and
    s2: "s2 = s1\<lparr>s_count := - s_count s1, s_depth := depth (dealloc k),
             s_stack := copy_frames (nat (depth (dealloc k))) (stack (dealloc k)) (s_stack s1)\<rparr>"
    by blast
  have bb: "b = bytes" using b assms(6) by simp
  have pid2: "s_profile_id s2 = of_nat (j + 1)" by (simp add: s2 pid)
  have t1: "take (nat (depth (alloc k))) (s_stack s1) = take (nat (depth (alloc k))) (stack (alloc k))"
    unfolding st1 by (rule take_copy_frames [OF assms(4)])
  have d2: "s_depth s2 = depth (dealloc k)" by (simp add: s2)
  have "s_stack s2 = copy_frames (nat (depth (dealloc k))) (stack (dealloc k)) (s_stack s1)"
    by (simp add: s2)
  then have t2: "take (nat (depth (dealloc k))) (s_stack s2) =
      take (nat (depth (dealloc k))) (stack (dealloc k))"
    by (simp only: take_copy_frames [OF assms(5)])
  have c2: "s_count s2 = - s_count s1" by (simp add: s2)
  have eq: "s2 = s1\<lparr>s_count := s_count s2, s_depth := s_depth s2, s_stack := s_stack s2\<rparr>"
    by (simp add: s2)
  have sign: "1 \<le> bytes \<and> unat (allocated_size (alloc k)) \<le> 2 ^ 63 \<longrightarrow>
      0 < sint (s_count s1) \<and> sint (s_count s2) = - sint (s_count s1) \<and> sint (s_count s2) < 0"
  proof (intro impI, elim conjE)
    assume b1: "1 \<le> bytes" and a: "unat (allocated_size (alloc k)) \<le> 2 ^ 63"
    have b0: "0 \<le> bytes" using b1 by simp
    have r: "bytes < 2 ^ 63" using lround_range [OF assms(6) [unfolded byte_total_def]] by simp
    have a1: "1 \<le> unat (allocated_size (alloc k))" using nz by (simp add: unat_gt_0 Suc_le_eq)
    have "sint (s_count s1) = \<lceil>real_of_int bytes / real (unat (allocated_size (alloc k)))\<rceil>"
      unfolding cnt bb by (rule emitted_count [OF b0 r nz a])
    moreover have "0 < real_of_int bytes / real (unat (allocated_size (alloc k)))"
    proof (rule divide_pos_pos)
      show "0 < real_of_int bytes" using b1 by simp
      show "0 < real (unat (allocated_size (alloc k)))" using a1 by linarith
    qed
    ultimately have p: "0 < sint (s_count s1)" by (simp add: less_ceiling_iff)
    then have "0 \<le> sint (s_count s1)" by simp
    from sint_uminus [OF this] c2 have m: "sint (s_count s2) = - sint (s_count s1)" by simp
    with p show "0 < sint (s_count s1) \<and> sint (s_count s2) = - sint (s_count s1) \<and>
        sint (s_count s2) < 0" by simp
  qed
  have zero: "bytes = 0 \<longrightarrow> s_count s1 = 0 \<and> s_count s2 = 0"
  proof
    assume z: "bytes = 0"
    have "s_count s1 = 0" unfolding cnt bb z by (rule zero_bytes_count [OF nz])
    then show "s_count s1 = 0 \<and> s_count s2 = 0" using c2 by simp
  qed
  from len pid pid2 d1 t1 d2 t2 c2 eq sign zero show ?thesis
    unfolding s1_def s2_def by (intro conjI)
qed

text \<open>
  C3, as the code has it: the count of a populated slot is the byte total
  \<open>lround (slot.count * alloc.weight * allocated_size)\<close> divided by the allocated size and
  rounded up to a whole object, for a byte total that is not negative and an allocated
  size of at most \<open>2^63\<close>; and the sum of both samples is the count times the allocated
  size, in 64-bit arithmetic.
\<close>

theorem Iterate_count_is_ceiling:
  assumes "Iterate table = Inr samples"
    and "j < length (populated_slots table)"
    and "populated_slots table ! j = (k, v, c)"
    and "byte_total k v c = Inr bytes"
    and "0 \<le> bytes"
    and "unat (allocated_size (alloc k)) \<le> 2 ^ 63"
  shows "sint (s_count (samples ! (2 * j))) =
           \<lceil>real_of_int bytes / real (unat (allocated_size (alloc k)))\<rceil>
       \<and> s_sum (samples ! (2 * j)) = s_count (samples ! (2 * j)) * allocated_size (alloc k)
       \<and> s_sum (samples ! (2 * j + 1)) = s_count (samples ! (2 * j)) * allocated_size (alloc k)"
proof -
  define s1 where "s1 = samples ! (2 * j)"
  define s2 where "s2 = samples ! (2 * j + 1)"
  have "emit_pair k v (of_nat (j + 1)) c = Inr (s1, s2)"
    unfolding s1_def s2_def by (rule Iterate_pairs(2) [OF assms(1,2,3)])
  from emit_pair_Inr [OF this] obtain b where
    b: "byte_total k v c = Inr b" and nz: "allocated_size (alloc k) \<noteq> 0" and
    cnt: "s_count s1 = (word_of_int b + allocated_size (alloc k) - 1) div allocated_size (alloc k)" and
    sum: "s_sum s1 = s_count s1 * allocated_size (alloc k)" and
    s2: "s2 = s1\<lparr>s_count := - s_count s1, s_depth := depth (dealloc k),
             s_stack := copy_frames (nat (depth (dealloc k))) (stack (dealloc k)) (s_stack s1)\<rparr>"
    by blast
  have bb: "b = bytes" using b assms(4) by simp
  have r: "bytes < 2 ^ 63" using lround_range [OF assms(4) [unfolded byte_total_def]] by simp
  have 1: "sint (s_count s1) = \<lceil>real_of_int bytes / real (unat (allocated_size (alloc k)))\<rceil>"
    unfolding cnt bb by (rule emitted_count [OF assms(5) r nz assms(6)])
  have 3: "s_sum s2 = s_count s1 * allocated_size (alloc k)" by (simp add: s2 sum)
  from 1 sum 3 show ?thesis unfolding s1_def s2_def by (intro conjI)
qed

lemma round_to_grid_half: "round_to_grid (1 / 2) = 1 / 2"
proof (rule round_to_grid_on_grid [where a = 1 and e = "- 1"])
  show "(1 / 2 :: real) = of_int 1 * 2 powi (- 1)" by (simp add: power_int_minus)
  have "binade (1 / 2) = - 1" by (rule binade_eqI) (simp_all add: power_int_minus)
  then show "ulp_exp (1 / 2) \<le> - 1" by (simp add: ulp_exp_def)
qed

lemma round_half_away_ge_one:
  assumes "1 / 2 \<le> z"
  shows "1 \<le> round_half_away z"
proof -
  have "1 \<le> z + 1 / 2" using assms by simp
  then have "1 \<le> \<lfloor>z + 1 / 2\<rfloor>" by (simp add: le_floor_iff)
  then show ?thesis using assms by (simp add: round_half_away_def)
qed

lemma byte_total_ge_one:
  assumes "byte_total k v c = Inr b"
    and "counts v ! nat (ComputeIndex (fst c) (snd c)) = Finite n" and "1 \<le> n"
    and "weight (alloc k) = Finite w" and "is_double w"
    and "unat (allocated_size (alloc k)) \<le> 2 ^ 53"
    and "1 / 2 \<le> w * real (unat (allocated_size (alloc k)))"
  shows "1 \<le> b"
proof -
  define a where "a = real (unat (allocated_size (alloc k)))"
  have a0: "0 \<le> a" unfolding a_def by (rule of_nat_0_le_iff)
  have A: "double_of_size (allocated_size (alloc k)) = Finite a"
    unfolding double_of_size_def a_def by (rule to_double_of_nat [OF assms(6)])
  have wa: "1 / 2 \<le> w * a" using assms(7) by (simp add: a_def)
  have wpos: "0 < w"
  proof (rule ccontr)
    assume "\<not> 0 < w"
    then have "w * a \<le> 0" using a0 by (simp add: mult_nonpos_nonneg)
    with wa show False by simp
  qed
  have apos: "0 < a"
  proof (rule ccontr)
    assume "\<not> 0 < a"
    with a0 have "a = 0" by simp
    with wa show False by simp
  qed
  from assms(1) have l: "lround (fmul (fmul (Finite n) (Finite w)) (Finite a)) = Inr b"
    by (simp only: byte_total_def assms(2,4) A)
  then obtain z where z: "fmul (fmul (Finite n) (Finite w)) (Finite a) = Finite z"
    and b: "b = round_half_away z"
    by (cases "fmul (fmul (Finite n) (Finite w)) (Finite a)")
       (auto simp: lround_def Let_def split: if_splits)
  from fmul_Finite [OF z] obtain p where p: "fmul (Finite n) (Finite w) = Finite p"
    and zp: "z = round_to_grid (p * a)" by auto
  from fmul_Finite [OF p] have pn: "p = round_to_grid (n * w)" by auto
  have "w \<le> n * w" using assms(3) wpos by simp
  then have "round_to_grid w \<le> round_to_grid (n * w)" by (rule round_to_grid_mono_pos [OF wpos])
  moreover have "round_to_grid w = w" using assms(5) by (simp add: is_double_def)
  ultimately have wp: "w \<le> p" by (simp add: pn)
  have "w * a \<le> p * a" using wp a0 by (rule mult_right_mono)
  with wa have "1 / 2 \<le> p * a" by linarith
  then have "round_to_grid (1 / 2) \<le> round_to_grid (p * a)"
    by (intro round_to_grid_mono_pos) simp_all
  then have "1 / 2 \<le> z" by (simp only: round_to_grid_half zp)
  then show ?thesis unfolding b by (rule round_half_away_ge_one)
qed

lemma pow_53_63: "(2::nat) ^ 53 \<le> 2 ^ 63"
  by simp

text \<open>
  C2, for a slot whose count is at least 1, whose weight is a double and whose allocated
  size is at most \<open>2^53\<close>, when the product of the weight and the allocated size is at
  least one half: the count of the first sample of its pair is at least 1.
\<close>

theorem Iterate_count_at_least_one:
  assumes "Iterate table = Inr samples"
    and "j < length (populated_slots table)"
    and "populated_slots table ! j = (k, v, c)"
    and "counts v ! nat (ComputeIndex (fst c) (snd c)) = Finite n" and "1 \<le> n"
    and "weight (alloc k) = Finite w" and "is_double w"
    and "unat (allocated_size (alloc k)) \<le> 2 ^ 53"
    and "1 / 2 \<le> w * real (unat (allocated_size (alloc k)))"
  shows "1 \<le> sint (s_count (samples ! (2 * j)))"
proof -
  define s1 where "s1 = samples ! (2 * j)"
  define s2 where "s2 = samples ! (2 * j + 1)"
  have "emit_pair k v (of_nat (j + 1)) c = Inr (s1, s2)"
    unfolding s1_def s2_def by (rule Iterate_pairs(2) [OF assms(1,2,3)])
  from emit_pair_Inr [OF this] obtain b where
    b: "byte_total k v c = Inr b" and nz: "allocated_size (alloc k) \<noteq> 0" and
    cnt: "s_count s1 = (word_of_int b + allocated_size (alloc k) - 1) div allocated_size (alloc k)"
    by blast
  have b1: "1 \<le> b" by (rule byte_total_ge_one [OF b assms(4-9)])
  have r: "b < 2 ^ 63" using lround_range [OF b [unfolded byte_total_def]] by simp
  have b0: "0 \<le> b" using b1 by simp
  have a1: "1 \<le> unat (allocated_size (alloc k))" using nz by (simp add: unat_gt_0 Suc_le_eq)
  have a63: "unat (allocated_size (alloc k)) \<le> 2 ^ 63" using assms(8) pow_53_63 by (rule order_trans)
  have "sint (s_count s1) = \<lceil>real_of_int b / real (unat (allocated_size (alloc k)))\<rceil>"
    unfolding cnt by (rule emitted_count [OF b0 r nz a63])
  moreover have "0 < real_of_int b / real (unat (allocated_size (alloc k)))"
  proof (rule divide_pos_pos)
    show "0 < real_of_int b" using b1 by simp
    show "0 < real (unat (allocated_size (alloc k)))" using a1 by linarith
  qed
  ultimately show ?thesis unfolding s1_def by (simp add: ceiling_le_iff flip: less_ceiling_iff)
qed

lemma to_double_numeral:
  assumes "(numeral n :: int) \<le> 2 ^ 53"
  shows "to_double (numeral n) = Finite (numeral n)"
  by (rule to_double_exact [OF is_double_numeral [OF assms]])

lemma to_double_1: "to_double 1 = Finite 1"
  using to_double_of_nat [of 1] by simp

lemma sample_of_fields:
  "weight (sample_of st) =
     fdiv (double_of_size (st_weight st)) (double_of_size (st_requested_size st + 1))"
  "requested_size (sample_of st) = st_requested_size st"
  "requested_alignment (sample_of st) = st_requested_alignment st"
  "allocated_size (sample_of st) = st_allocated_size st"
  "depth (sample_of st) = int (st_depth st)"
  "stack (sample_of st) =
     copy_frames (min (st_depth st) kMaxStackDepth) (st_stack st) (replicate kMaxStackDepth 0)"
  "creation_time (sample_of st) = allocation_time st"
  "cpu_id (sample_of st) = 0" "thread_id (sample_of st) = 100"
  by (simp_all add: sample_of_def ReportMalloc_def Let_def new_profiler_def example_env_def)

lemma key_of_dealloc_fields:
  "depth (dealloc (key_of st)) = 2"
  "stack (dealloc (key_of st)) = [8192, 4100] @ replicate 62 0"
  "creation_time (dealloc (key_of st)) = 5000"
  "cpu_id (dealloc (key_of st)) = 0" "thread_id (dealloc (key_of st)) = 100"
  by (simp_all add: key_of_def deallocation_record_def Let_def example_env_def copy_frames_def
      kMaxStackDepth_def)

lemma table_of_eq:
  assumes "allocation_time st = 1000"
  shows "table_of st = [(key_of st, one_lifetime)]"
proof -
  have r: "table_of st =
      AddTrace (sample_of st) (deallocation_record example_env (sample_of st)) []"
    by (simp add: table_of_def run_def ReportMalloc_def ReportFree_def Let_def new_profiler_def
        sample_of_def)
  have i: "AddTrace_index (sample_of st) (deallocation_record example_env (sample_of st)) = 11"
    using key_of_dealloc_fields(4,5) [of st]
    by (simp add: AddTrace_index_def sample_of_fields key_of_def ComputeIndex_def
        CpuThreadMatchingStatus_def RpcMatchingStatus_def ComputeValue_def)
  have l: "life_time_ns (sample_of st) (deallocation_record example_env (sample_of st)) =
      Finite 4000"
    using key_of_dealloc_fields(3) [of st] assms
    by (simp add: life_time_ns_def sample_of_fields key_of_def to_double_numeral)
  show ?thesis by (simp add: r AddTrace_def i l key_of_def one_lifetime_def)
qed

lemma one_lifetime_slot: "constant_slot one_lifetime 11 1 4000"
  unfolding one_lifetime_def
  by (rule update_slot_first) (simp_all add: kNumCases_def is_double_numeral)

lemma one_lifetime_counts:
  "counts one_lifetime = (replicate kNumCases (Finite 0))[11 := Finite 1]"
  by (simp add: one_lifetime_def update_slot_def Let_def Value_def kNumCases_def to_double_1)

lemma populated_cases_one_lifetime: "populated_cases one_lifetime = [same_cpu_and_thread]"
  by (simp add: populated_cases_def one_lifetime_counts kAllCases_def ComputeIndex_def
      CpuThreadMatchingStatus_def RpcMatchingStatus_def ComputeValue_def kNumCases_def
      same_cpu_and_thread_def)

lemma populated_slots_single:
  "populated_slots [(k, one_lifetime)] = [(k, one_lifetime, same_cpu_and_thread)]"
  by (simp add: populated_slots_def populated_cases_one_lifetime)

lemma Iterate_single:
  assumes "emit_pair k one_lifetime 1 same_cpu_and_thread = Inr (first, second)"
  shows "Iterate [(k, one_lifetime)] = Inr [first, second]"
  by (simp add: Iterate_emitted populated_slots_single assms and_then_def)

lemma same_cpu_and_thread_index:
  "nat (ComputeIndex (fst same_cpu_and_thread) (snd same_cpu_and_thread)) = 11"
  by (simp add: same_cpu_and_thread_def ComputeIndex_def CpuThreadMatchingStatus_def
      RpcMatchingStatus_def ComputeValue_def)

lemma bucket_examples:
  "LifetimeToBucketedLifetimeNanoseconds (Finite 4000) = Inr 1000"
  "LifetimeToBucketedLifetimeNanoseconds (Finite 0) = Inr 1"
  by (simp_all add: bucket_below_million bucket_of_def)

lemma byte_total_single:
  assumes "fmul (fmul (Finite 1) (weight (alloc k))) (double_of_size (allocated_size (alloc k)))
           = Finite (of_int b)"
    and "- (2 ^ 63) \<le> b" and "b < 2 ^ 63"
  shows "byte_total k one_lifetime same_cpu_and_thread = Inr b"
proof -
  have "counts one_lifetime ! 11 = Finite 1"
    using one_lifetime_slot by (simp add: constant_slot_def)
  moreover have "round_half_away (of_int b) = b" by (simp add: round_half_away_def)
  ultimately show ?thesis using assms
    by (simp add: byte_total_def same_cpu_and_thread_index lround_def Let_def)
qed

lemma emit_pair_single:
  assumes "byte_total k one_lifetime same_cpu_and_thread = Inr b"
    and "allocated_size (alloc k) \<noteq> 0"
  shows "\<exists>first second. emit_pair k one_lifetime pid same_cpu_and_thread = Inr (first, second) \<and>
     s_count first = (word_of_int b + allocated_size (alloc k) - 1) div allocated_size (alloc k) \<and>
     s_lifetime_ns first = 1000 \<and> s_stddev_lifetime_ns first = 1 \<and>
     s_min_lifetime_ns first = 1000 \<and> s_max_lifetime_ns first = 1000"
proof -
  have s: "counts one_lifetime ! 11 = Finite 1" "mean_life_times_ns one_lifetime ! 11 = Finite 4000"
    "variance_life_times_ns one_lifetime ! 11 = Finite 0"
    "min_life_times_ns one_lifetime ! 11 = Finite 4000"
    "max_life_times_ns one_lifetime ! 11 = Finite 4000"
    using one_lifetime_slot by (simp_all add: constant_slot_def)
  show ?thesis using assms
    by (simp add: emit_pair_def byte_total_def same_cpu_and_thread_index s fmax_def
        bucket_examples and_then_def Let_def)
qed

lemma example_traces_time:
  "allocation_time example_trace = 1000" "allocation_time zero_weight_trace = 1000"
  "allocation_time fractional_trace = 1000"
  by (simp_all add: example_trace_def zero_weight_trace_def fractional_trace_def)

lemma is_double_5_4: "is_double (5 / 4)"
  by (rule is_double_big [where a = 5 and e = "- 2" and g = 0]) (simp_all add: power_int_minus)

lemma example_weights:
  "weight (alloc (key_of example_trace)) = Finite 32"
  "weight (alloc (key_of zero_weight_trace)) = Finite 0"
  "weight (alloc (key_of fractional_trace)) = Finite (5 / 4)"
  by (simp_all add: key_of_def sample_of_fields example_trace_def zero_weight_trace_def
      fractional_trace_def double_of_size_def to_double_numeral
      to_double_exact [OF is_double_5_4])

lemma example_sizes:
  "allocated_size (alloc (key_of example_trace)) = 32"
  "allocated_size (alloc (key_of zero_weight_trace)) = 32"
  "allocated_size (alloc (key_of fractional_trace)) = 8"
  by (simp_all add: key_of_def sample_of_fields example_trace_def zero_weight_trace_def
      fractional_trace_def)

lemma example_byte_totals:
  "byte_total (key_of example_trace) one_lifetime same_cpu_and_thread = Inr 1024"
  "byte_total (key_of zero_weight_trace) one_lifetime same_cpu_and_thread = Inr 0"
  "byte_total (key_of fractional_trace) one_lifetime same_cpu_and_thread = Inr 10"
proof -
  show "byte_total (key_of example_trace) one_lifetime same_cpu_and_thread = Inr 1024"
    by (rule byte_total_single)
       (simp_all add: example_weights example_sizes double_of_size_def to_double_numeral)
  show "byte_total (key_of zero_weight_trace) one_lifetime same_cpu_and_thread = Inr 0"
    by (rule byte_total_single)
       (simp_all add: example_weights example_sizes double_of_size_def to_double_numeral)
  show "byte_total (key_of fractional_trace) one_lifetime same_cpu_and_thread = Inr 10"
    by (rule byte_total_single)
       (simp_all add: example_weights example_sizes double_of_size_def to_double_numeral
          to_double_exact [OF is_double_5_4])
qed

lemma Iterate_table_of:
  assumes "allocation_time st = 1000"
    and "byte_total (key_of st) one_lifetime same_cpu_and_thread = Inr b"
    and "allocated_size (alloc (key_of st)) \<noteq> 0"
  shows "Iterate (table_of st) = Inr (samples_of st)"
    and "populated_slots (table_of st) = [(key_of st, one_lifetime, same_cpu_and_thread)]"
    and "s_count (samples_of st ! 0) =
           (word_of_int b + allocated_size (alloc (key_of st)) - 1) div
             allocated_size (alloc (key_of st))"
    and "s_lifetime_ns (samples_of st ! 0) = 1000"
proof -
  from emit_pair_single [OF assms(2,3), of 1] obtain first second where
    e: "emit_pair (key_of st) one_lifetime 1 same_cpu_and_thread = Inr (first, second)" and
    c: "s_count first =
          (word_of_int b + allocated_size (alloc (key_of st)) - 1) div
            allocated_size (alloc (key_of st))" and
    l: "s_lifetime_ns first = 1000" by blast
  have i: "Iterate (table_of st) = Inr [first, second]"
    unfolding table_of_eq [OF assms(1)] by (rule Iterate_single [OF e])
  then have s: "samples_of st = [first, second]" by (simp add: samples_of_def)
  show "Iterate (table_of st) = Inr (samples_of st)" by (simp only: i s)
  show "populated_slots (table_of st) = [(key_of st, one_lifetime, same_cpu_and_thread)]"
    unfolding table_of_eq [OF assms(1)] by (rule populated_slots_single)
  show "s_count (samples_of st ! 0) =
           (word_of_int b + allocated_size (alloc (key_of st)) - 1) div
             allocated_size (alloc (key_of st))" by (simp add: s c)
  show "s_lifetime_ns (samples_of st ! 0) = 1000" by (simp add: s l)
qed

lemma key_of_alloc_stack:
  assumes "st_depth st = 2" and "st_stack st = [4096, 4100] @ replicate 62 0"
  shows "depth (alloc (key_of st)) = 2" and "stack (alloc (key_of st)) = [4096, 4100] @ replicate 62 0"
  using assms
  by (simp_all add: key_of_def sample_of_fields copy_frames_def kMaxStackDepth_def)

lemma example_nonzero_sizes:
  "allocated_size (alloc (key_of example_trace)) \<noteq> 0"
  "allocated_size (alloc (key_of zero_weight_trace)) \<noteq> 0"
  "allocated_size (alloc (key_of fractional_trace)) \<noteq> 0"
  by (simp_all add: example_sizes)

lemma example_stacks:
  "depth (alloc (key_of example_trace)) = 2"
  "stack (alloc (key_of example_trace)) = [4096, 4100] @ replicate 62 0"
  by (rule key_of_alloc_stack; simp add: example_trace_def)+

text \<open>
  The run of two allocations: its table has two entries with one lifetime each, and
  \<^verbatim>\<open>Iterate\<close> returns four samples.
\<close>

lemma malloc_then_free:
  assumes "allocs p (sampled_alloc_handle st) = None"
  shows "reports (ReportFree example_env (sampled_alloc_handle st) (ReportMalloc example_env st p)) =
           AddTrace (sample_of st) (deallocation_record example_env (sample_of st)) (reports p)"
    and "allocs (ReportFree example_env (sampled_alloc_handle st) (ReportMalloc example_env st p)) =
           (allocs p)(sampled_alloc_handle st := None)"
  using assms
  by (simp_all add: ReportMalloc_def ReportFree_def Let_def sample_of_def new_profiler_def)

lemma example_handles:
  "sampled_alloc_handle example_trace = 7" "sampled_alloc_handle fractional_trace = 7"
  by (simp_all add: example_trace_def fractional_trace_def)

lemma AddTrace_example:
  assumes "allocation_time st = 1000"
  shows "AddTrace (sample_of st) (deallocation_record example_env (sample_of st)) table =
           update_entry (key_of st) (update_slot 11 (Finite 4000)) table"
proof -
  have i: "AddTrace_index (sample_of st) (deallocation_record example_env (sample_of st)) = 11"
    using key_of_dealloc_fields(4,5) [of st]
    by (simp add: AddTrace_index_def sample_of_fields key_of_def ComputeIndex_def
        CpuThreadMatchingStatus_def RpcMatchingStatus_def ComputeValue_def)
  have l: "life_time_ns (sample_of st) (deallocation_record example_env (sample_of st)) =
      Finite 4000"
    using key_of_dealloc_fields(3) [of st] assms
    by (simp add: life_time_ns_def sample_of_fields key_of_def to_double_numeral)
  show ?thesis by (simp add: AddTrace_def i l key_of_def)
qed

lemma example_keys_differ: "\<not> key_eq (key_of example_trace) (key_of fractional_trace)"
proof -
  have "requested_size (alloc (key_of example_trace)) = 31"
    by (simp add: key_of_def sample_of_fields example_trace_def)
  moreover have "requested_size (alloc (key_of fractional_trace)) = 3"
    by (simp add: key_of_def sample_of_fields fractional_trace_def)
  ultimately show ?thesis by (simp add: key_eq_def record_eq_def)
qed

lemma two_frees_table_eq:
  "two_frees_table =
     [(key_of example_trace, one_lifetime), (key_of fractional_trace, one_lifetime)]"
proof -
  define p1 where "p1 = ReportFree example_env (sampled_alloc_handle example_trace)
      (ReportMalloc example_env example_trace new_profiler)"
  define p2 where "p2 = ReportFree example_env (sampled_alloc_handle fractional_trace)
      (ReportMalloc example_env fractional_trace p1)"
  have r: "two_frees_table = reports p2"
    by (simp add: two_frees_table_def run_def p2_def p1_def example_handles)
  have n: "allocs new_profiler (sampled_alloc_handle example_trace) = None"
    by (simp add: new_profiler_def)
  have t1: "reports p1 = [(key_of example_trace, one_lifetime)]"
    unfolding p1_def malloc_then_free(1) [OF n] AddTrace_example [OF example_traces_time(1)]
    by (simp add: new_profiler_def one_lifetime_def)
  have a1: "allocs p1 (sampled_alloc_handle fractional_trace) = None"
    unfolding p1_def malloc_then_free(2) [OF n] by (simp add: example_handles)
  have "reports p2 = update_entry (key_of fractional_trace) (update_slot 11 (Finite 4000))
      [(key_of example_trace, one_lifetime)]"
    unfolding p2_def malloc_then_free(1) [OF a1] AddTrace_example [OF example_traces_time(3)]
    by (simp only: t1)
  also have "\<dots> = [(key_of example_trace, one_lifetime), (key_of fractional_trace, one_lifetime)]"
    using example_keys_differ by (simp add: one_lifetime_def)
  finally show ?thesis by (simp only: r)
qed

lemma populated_slots_two_frees:
  "populated_slots two_frees_table =
     [(key_of example_trace, one_lifetime, same_cpu_and_thread),
      (key_of fractional_trace, one_lifetime, same_cpu_and_thread)]"
  by (simp add: two_frees_table_eq populated_slots_def populated_cases_one_lifetime)

lemma Iterate_two_frees:
  shows "Iterate two_frees_table = Inr two_frees_samples"
    and "length two_frees_samples = 4"
    and "s_count (two_frees_samples ! 0) = 32"
    and "s_count (two_frees_samples ! 2) = 2"
proof -
  from emit_pair_single [OF example_byte_totals(1) example_nonzero_sizes(1), of 1]
  obtain f1 s1 where
    e1: "emit_pair (key_of example_trace) one_lifetime 1 same_cpu_and_thread = Inr (f1, s1)" and
    c1: "s_count f1 = (word_of_int 1024 + allocated_size (alloc (key_of example_trace)) - 1) div
            allocated_size (alloc (key_of example_trace))" by blast
  from emit_pair_single [OF example_byte_totals(3) example_nonzero_sizes(3), of "1 + 1"]
  obtain f2 s2 where
    e2: "emit_pair (key_of fractional_trace) one_lifetime (1 + 1) same_cpu_and_thread = Inr (f2, s2)" and
    c2: "s_count f2 = (word_of_int 10 + allocated_size (alloc (key_of fractional_trace)) - 1) div
            allocated_size (alloc (key_of fractional_trace))" by blast
  have i: "Iterate two_frees_table = Inr [f1, s1, f2, s2]"
    by (simp only: Iterate_emitted populated_slots_two_frees emitted.simps e1 e2)
       (simp add: and_then_def)
  then have s: "two_frees_samples = [f1, s1, f2, s2]" by (simp add: two_frees_samples_def)
  show "Iterate two_frees_table = Inr two_frees_samples" by (simp only: i s)
  show "length two_frees_samples = 4" by (simp add: s)
  show "s_count (two_frees_samples ! 0) = 32" by (simp add: s c1 example_sizes)
  show "s_count (two_frees_samples ! 2) = 2" by (simp add: s c2 example_sizes)
qed

lemma example_fractional_stacks:
  "depth (alloc (key_of fractional_trace)) = 2"
  "stack (alloc (key_of fractional_trace)) = [4096, 4100] @ replicate 62 0"
  by (rule key_of_alloc_stack; simp add: fractional_trace_def example_trace_def)+

lemma example_zero_weight_stacks:
  "depth (alloc (key_of zero_weight_trace)) = 2"
  "stack (alloc (key_of zero_weight_trace)) = [4096, 4100] @ replicate 62 0"
  by (rule key_of_alloc_stack; simp add: zero_weight_trace_def example_trace_def)+

theorem Iterate_emits_pairs_witness:
  "Iterate two_frees_table = Inr two_frees_samples
   \<and> populated_slots two_frees_table =
       [(key_of example_trace, one_lifetime, same_cpu_and_thread),
        (key_of fractional_trace, one_lifetime, same_cpu_and_thread)]
   \<and> depth (alloc (key_of example_trace)) = 2
   \<and> length (stack (alloc (key_of example_trace))) = 64
   \<and> depth (dealloc (key_of example_trace)) = 2
   \<and> length (stack (dealloc (key_of example_trace))) = 64
   \<and> byte_total (key_of example_trace) one_lifetime same_cpu_and_thread = Inr 1024
   \<and> unat (allocated_size (alloc (key_of example_trace))) = 32
   \<and> depth (alloc (key_of fractional_trace)) = 2
   \<and> length (stack (alloc (key_of fractional_trace))) = 64
   \<and> depth (dealloc (key_of fractional_trace)) = 2
   \<and> length (stack (dealloc (key_of fractional_trace))) = 64
   \<and> byte_total (key_of fractional_trace) one_lifetime same_cpu_and_thread = Inr 10
   \<and> unat (allocated_size (alloc (key_of fractional_trace))) = 8
   \<and> length two_frees_samples = 4
   \<and> s_profile_id (two_frees_samples ! 0) = 1
   \<and> s_profile_id (two_frees_samples ! 1) = 1
   \<and> s_profile_id (two_frees_samples ! 2) = 2
   \<and> s_profile_id (two_frees_samples ! 3) = 2
   \<and> s_depth (two_frees_samples ! 0) = 2
   \<and> take 2 (s_stack (two_frees_samples ! 0)) = [4096, 4100]
   \<and> s_depth (two_frees_samples ! 1) = 2
   \<and> take 2 (s_stack (two_frees_samples ! 1)) = [8192, 4100]
   \<and> s_depth (two_frees_samples ! 2) = 2
   \<and> take 2 (s_stack (two_frees_samples ! 2)) = [4096, 4100]
   \<and> s_depth (two_frees_samples ! 3) = 2
   \<and> take 2 (s_stack (two_frees_samples ! 3)) = [8192, 4100]
   \<and> sint (s_count (two_frees_samples ! 0)) = 32
   \<and> sint (s_count (two_frees_samples ! 1)) = - 32
   \<and> sint (s_count (two_frees_samples ! 2)) = 2
   \<and> sint (s_count (two_frees_samples ! 3)) = - 2
   \<and> Iterate (table_of zero_weight_trace) = Inr (samples_of zero_weight_trace)
   \<and> populated_slots (table_of zero_weight_trace) =
       [(key_of zero_weight_trace, one_lifetime, same_cpu_and_thread)]
   \<and> byte_total (key_of zero_weight_trace) one_lifetime same_cpu_and_thread = Inr 0
   \<and> s_count (samples_of zero_weight_trace ! 0) = 0
   \<and> s_count (samples_of zero_weight_trace ! 1) = 0"
proof -
  note it = Iterate_two_frees
  note ps = populated_slots_two_frees
  note iz = Iterate_table_of [OF example_traces_time(2) example_byte_totals(2)
      example_nonzero_sizes(2)]
  have j0: "0 < length (populated_slots two_frees_table)" by (simp add: ps)
  have j1: "1 < length (populated_slots two_frees_table)" by (simp add: ps)
  have n0: "populated_slots two_frees_table ! 0 =
      (key_of example_trace, one_lifetime, same_cpu_and_thread)" by (simp add: ps)
  have n1: "populated_slots two_frees_table ! 1 =
      (key_of fractional_trace, one_lifetime, same_cpu_and_thread)" by (simp add: ps)
  have a0: "nat (depth (alloc (key_of example_trace))) \<le> length (stack (alloc (key_of example_trace)))"
    by (simp add: example_stacks)
  have a1: "nat (depth (alloc (key_of fractional_trace))) \<le>
      length (stack (alloc (key_of fractional_trace)))"
    by (simp add: example_fractional_stacks)
  have az: "nat (depth (alloc (key_of zero_weight_trace))) \<le>
      length (stack (alloc (key_of zero_weight_trace)))"
    by (simp add: example_zero_weight_stacks)
  have d: "nat (depth (dealloc (key_of st))) \<le> length (stack (dealloc (key_of st)))" for st
    by (simp add: key_of_dealloc_fields)
  have u0: "unat (allocated_size (alloc (key_of example_trace))) = 32" by (simp add: example_sizes)
  have u1: "unat (allocated_size (alloc (key_of fractional_trace))) = 8" by (simp add: example_sizes)
  have jz: "0 < length (populated_slots (table_of zero_weight_trace))" by (simp add: iz(2))
  have nz: "populated_slots (table_of zero_weight_trace) ! 0 =
      (key_of zero_weight_trace, one_lifetime, same_cpu_and_thread)" by (simp add: iz(2))
  note t0 = Iterate_emits_pairs [OF it(1) j0 n0 a0 d example_byte_totals(1)]
  have t0a: "s_profile_id (two_frees_samples ! (2 * 0)) = of_nat (0 + 1)"
    and t0b: "s_profile_id (two_frees_samples ! (2 * 0 + 1)) = of_nat (0 + 1)"
    and t0c: "s_depth (two_frees_samples ! (2 * 0)) = depth (alloc (key_of example_trace))"
    and t0d: "take (nat (depth (alloc (key_of example_trace)))) (s_stack (two_frees_samples ! (2 * 0))) =
           take (nat (depth (alloc (key_of example_trace)))) (stack (alloc (key_of example_trace)))"
    and t0e: "s_depth (two_frees_samples ! (2 * 0 + 1)) = depth (dealloc (key_of example_trace))"
    and t0f: "take (nat (depth (dealloc (key_of example_trace)))) (s_stack (two_frees_samples ! (2 * 0 + 1))) =
           take (nat (depth (dealloc (key_of example_trace)))) (stack (dealloc (key_of example_trace)))"
    using t0 by blast+
  have p0: "1 \<le> (1024::int) \<and> unat (allocated_size (alloc (key_of example_trace))) \<le> 2 ^ 63"
    by (simp add: u0)
  have t0g: "sint (s_count (two_frees_samples ! (2 * 0 + 1))) =
      - sint (s_count (two_frees_samples ! (2 * 0)))"
    using t0 p0 by blast
  have first: "s_profile_id (two_frees_samples ! 0) = 1
   \<and> s_profile_id (two_frees_samples ! 1) = 1
   \<and> s_depth (two_frees_samples ! 0) = 2
   \<and> take 2 (s_stack (two_frees_samples ! 0)) = [4096, 4100]
   \<and> s_depth (two_frees_samples ! 1) = 2
   \<and> take 2 (s_stack (two_frees_samples ! 1)) = [8192, 4100]
   \<and> sint (s_count (two_frees_samples ! 1)) = - sint (s_count (two_frees_samples ! 0))"
    using t0a t0b t0c t0d t0e t0f t0g by (simp add: example_stacks key_of_dealloc_fields)
  have three: "2 * 1 + 1 = (3::nat)" by simp
  note t1 = Iterate_emits_pairs [OF it(1) j1 n1 a1 d example_byte_totals(3)]
  have t1a: "s_profile_id (two_frees_samples ! (2 * 1)) = of_nat (1 + 1)"
    and t1b: "s_profile_id (two_frees_samples ! (2 * 1 + 1)) = of_nat (1 + 1)"
    and t1c: "s_depth (two_frees_samples ! (2 * 1)) = depth (alloc (key_of fractional_trace))"
    and t1d: "take (nat (depth (alloc (key_of fractional_trace)))) (s_stack (two_frees_samples ! (2 * 1))) =
           take (nat (depth (alloc (key_of fractional_trace)))) (stack (alloc (key_of fractional_trace)))"
    and t1e: "s_depth (two_frees_samples ! (2 * 1 + 1)) = depth (dealloc (key_of fractional_trace))"
    and t1f: "take (nat (depth (dealloc (key_of fractional_trace)))) (s_stack (two_frees_samples ! (2 * 1 + 1))) =
           take (nat (depth (dealloc (key_of fractional_trace)))) (stack (dealloc (key_of fractional_trace)))"
    using t1 by blast+
  have p1: "1 \<le> (10::int) \<and> unat (allocated_size (alloc (key_of fractional_trace))) \<le> 2 ^ 63"
    by (simp add: u1)
  have t1g: "sint (s_count (two_frees_samples ! (2 * 1 + 1))) =
      - sint (s_count (two_frees_samples ! (2 * 1)))"
    using t1 p1 by blast
  have second: "s_profile_id (two_frees_samples ! 2) = 2
   \<and> s_profile_id (two_frees_samples ! 3) = 2
   \<and> s_depth (two_frees_samples ! 2) = 2
   \<and> take 2 (s_stack (two_frees_samples ! 2)) = [4096, 4100]
   \<and> s_depth (two_frees_samples ! 3) = 2
   \<and> take 2 (s_stack (two_frees_samples ! 3)) = [8192, 4100]
   \<and> sint (s_count (two_frees_samples ! 3)) = - sint (s_count (two_frees_samples ! 2))"
    using t1a t1b t1c t1d t1e t1f t1g
    by (simp add: example_fractional_stacks key_of_dealloc_fields three)
  note tz = Iterate_emits_pairs [OF iz(1) jz nz az d example_byte_totals(2)]
  have "s_count (samples_of zero_weight_trace ! (2 * 0)) = 0
   \<and> s_count (samples_of zero_weight_trace ! (2 * 0 + 1)) = 0"
    using tz by blast
  then have zero: "s_count (samples_of zero_weight_trace ! 0) = 0
   \<and> s_count (samples_of zero_weight_trace ! 1) = 0" by simp
  have c0: "sint (s_count (two_frees_samples ! 0)) = 32" by (simp add: it(3))
  have c2: "sint (s_count (two_frees_samples ! 2)) = 2" by (simp add: it(4))
  have lens: "length (stack (alloc (key_of example_trace))) = 64"
    "length (stack (alloc (key_of fractional_trace))) = 64"
    "length (stack (dealloc (key_of example_trace))) = 64"
    "length (stack (dealloc (key_of fractional_trace))) = 64"
    by (simp_all add: example_stacks example_fractional_stacks key_of_dealloc_fields)
  show ?thesis
    using it(1,2) ps first second zero c0 c2 lens u0 u1 iz(1,2)
      example_byte_totals example_stacks(1) example_fractional_stacks(1)
      key_of_dealloc_fields(1)
    by simp
qed

text \<open>
  C1 as stated fails for an allocation sampled with weight 0: its slot is populated and
  the count of the first sample is 0, which is not positive.
\<close>

theorem Iterate_zero_count_counterexample:
  "Iterate (table_of zero_weight_trace) = Inr (samples_of zero_weight_trace)
   \<and> populated_slots (table_of zero_weight_trace) =
       [(key_of zero_weight_trace, one_lifetime, same_cpu_and_thread)]
   \<and> s_count (samples_of zero_weight_trace ! 0) = 0
   \<and> \<not> 0 < sint (s_count (samples_of zero_weight_trace ! 0))"
proof -
  note it = Iterate_table_of [OF example_traces_time(2) example_byte_totals(2)
      example_nonzero_sizes(2)]
  have c: "s_count (samples_of zero_weight_trace ! 0) = 0"
    by (simp add: it(3) example_sizes)
  show ?thesis using it(1,2) c by simp
qed

theorem Iterate_count_at_least_one_witness:
  "Iterate (table_of example_trace) = Inr (samples_of example_trace)
   \<and> populated_slots (table_of example_trace) ! 0 =
       (key_of example_trace, one_lifetime, same_cpu_and_thread)
   \<and> counts one_lifetime ! 11 = Finite 1
   \<and> weight (alloc (key_of example_trace)) = Finite 32
   \<and> is_double 32
   \<and> unat (allocated_size (alloc (key_of example_trace))) = 32
   \<and> 1 \<le> sint (s_count (samples_of example_trace ! 0))"
proof -
  note it = Iterate_table_of [OF example_traces_time(1) example_byte_totals(1)
      example_nonzero_sizes(1)]
  have j: "0 < length (populated_slots (table_of example_trace))" by (simp add: it(2))
  have n: "populated_slots (table_of example_trace) ! 0 =
      (key_of example_trace, one_lifetime, same_cpu_and_thread)" by (simp add: it(2))
  have u: "unat (allocated_size (alloc (key_of example_trace))) = 32" by (simp add: example_sizes)
  have s: "counts one_lifetime ! 11 = Finite 1"
    using one_lifetime_slot by (simp add: constant_slot_def)
  have s': "counts one_lifetime !
      nat (ComputeIndex (fst same_cpu_and_thread) (snd same_cpu_and_thread)) = Finite 1"
    by (simp only: same_cpu_and_thread_index s)
  have d: "is_double 32" by (rule is_double_numeral) simp
  have "1 \<le> sint (s_count (samples_of example_trace ! (2 * 0)))"
    by (rule Iterate_count_at_least_one [OF it(1) j n s' _ example_weights(1) d])
       (simp_all add: u)
  then show ?thesis using it(1) n s example_weights(1) d u by simp
qed

text \<open>
  C2 as stated fails on the same profile: the slot has count 1 and the emitted count is 0.
\<close>

theorem Iterate_count_below_one_counterexample:
  "Iterate (table_of zero_weight_trace) = Inr (samples_of zero_weight_trace)
   \<and> populated_slots (table_of zero_weight_trace) ! 0 =
       (key_of zero_weight_trace, one_lifetime, same_cpu_and_thread)
   \<and> counts one_lifetime ! 11 = Finite 1
   \<and> sint (s_count (samples_of zero_weight_trace ! 0)) = 0
   \<and> \<not> 1 \<le> sint (s_count (samples_of zero_weight_trace ! 0))"
proof -
  note it = Iterate_table_of [OF example_traces_time(2) example_byte_totals(2)
      example_nonzero_sizes(2)]
  have c: "s_count (samples_of zero_weight_trace ! 0) = 0"
    by (simp add: it(3) example_sizes)
  have s: "counts one_lifetime ! 11 = Finite 1"
    using one_lifetime_slot by (simp add: constant_slot_def)
  show ?thesis using it(1,2) c s by simp
qed

theorem Iterate_count_is_ceiling_witness:
  "Iterate (table_of example_trace) = Inr (samples_of example_trace)
   \<and> populated_slots (table_of example_trace) ! 0 =
       (key_of example_trace, one_lifetime, same_cpu_and_thread)
   \<and> byte_total (key_of example_trace) one_lifetime same_cpu_and_thread = Inr 1024
   \<and> allocated_size (alloc (key_of example_trace)) = 32
   \<and> sint (s_count (samples_of example_trace ! 0)) = 32
   \<and> s_sum (samples_of example_trace ! 0) = 1024
   \<and> s_sum (samples_of example_trace ! 1) = 1024"
proof -
  note it = Iterate_table_of [OF example_traces_time(1) example_byte_totals(1)
      example_nonzero_sizes(1)]
  have j: "0 < length (populated_slots (table_of example_trace))" by (simp add: it(2))
  have n: "populated_slots (table_of example_trace) ! 0 =
      (key_of example_trace, one_lifetime, same_cpu_and_thread)" by (simp add: it(2))
  have c: "s_count (samples_of example_trace ! 0) = 32"
    by (simp add: it(3) example_sizes)
  have "\<lceil>real_of_int 1024 / real (unat (32 :: 64 word))\<rceil> = 32" by simp
  with Iterate_count_is_ceiling [OF it(1) j n example_byte_totals(1)]
  have "sint (s_count (samples_of example_trace ! 0)) = 32
       \<and> s_sum (samples_of example_trace ! 0) = 1024
       \<and> s_sum (samples_of example_trace ! 1) = 1024"
    by (simp add: example_sizes c)
  then show ?thesis using it(1) n example_byte_totals(1) example_sizes(1) by simp
qed

text \<open>
  C3 as stated fails for a slot with count 1, weight 1.25 and allocated size 8: the byte
  total is 10 and the count is 2, while \<open>round (1 * 1.25 * 8 / 8)\<close> is 1.
\<close>

theorem Iterate_count_rounds_up_counterexample:
  "Iterate (table_of fractional_trace) = Inr (samples_of fractional_trace)
   \<and> populated_slots (table_of fractional_trace) ! 0 =
       (key_of fractional_trace, one_lifetime, same_cpu_and_thread)
   \<and> counts one_lifetime ! 11 = Finite 1
   \<and> weight (alloc (key_of fractional_trace)) = Finite (5 / 4)
   \<and> allocated_size (alloc (key_of fractional_trace)) = 8
   \<and> s_count (samples_of fractional_trace ! 0) = 2
   \<and> claimed_count 1 (5 / 4) 8 = 1"
proof -
  note it = Iterate_table_of [OF example_traces_time(3) example_byte_totals(3)
      example_nonzero_sizes(3)]
  have c: "s_count (samples_of fractional_trace ! 0) = 2"
    by (simp add: it(3) example_sizes)
  have s: "counts one_lifetime ! 11 = Finite 1"
    using one_lifetime_slot by (simp add: constant_slot_def)
  have "round (5 / 4 :: real) = 1" by (simp add: round_def)
  then have r: "claimed_count 1 (5 / 4) 8 = 1" by (simp add: claimed_count_def)
  show ?thesis using it(1,2) c s r example_weights(3) example_sizes(3) by simp
qed

end
